theory Spec2Isabelle
  imports Main "HOL-Library.Sublist"
begin

section \<open>Strings of the application\<close>

text \<open>
  The source is \<^verbatim>\<open>src/src/App.js\<close>. A JavaScript string is a sequence of UTF-16 code
  units. The context text is the one string the source inspects unit by unit (lower case,
  regular expressions, \<^verbatim>\<open>trim\<close>); it is modelled as the list of its code units, a code
  unit as a natural number. \<open>units\<close> gives the code units of an ASCII literal.

  Every other string (a literal of the source, an identifier, a URL, a message) is only
  stored, passed on, compared for equality or tested for emptiness; it is modelled as a
  \<^typ>\<open>string\<close>, and the en dash of the literals as its three UTF-8 bytes.
\<close>

type_synonym code_unit = nat

type_synonym jsstring = "code_unit list"

definition units :: "string \<Rightarrow> jsstring" where
  "units s = map of_char s"

definition en_dash :: string where
  "en_dash = [CHR 0xE2, CHR 0x80, CHR 0x93]"

section \<open>The timeframe cycle\<close>

text \<open>
  \<^verbatim>\<open>const DEFAULT_TIMEFRAMES = ["15 minutes", "30 minutes", "1 hour", "2 hours",
    "Half day", "1 day", "2-3 days"]\<close> (the last label with an en dash).
\<close>

definition DEFAULT_TIMEFRAMES :: "string list" where
  "DEFAULT_TIMEFRAMES =
     [''15 minutes'', ''30 minutes'', ''1 hour'', ''2 hours'', ''Half day'', ''1 day'',
      ''2'' @ en_dash @ ''3 days'']"

text \<open>
  \<^verbatim>\<open>function pickTimeframe(idx = 0) { return DEFAULT_TIMEFRAMES[idx % DEFAULT_TIMEFRAMES.length]; }\<close>
  The index is a non-negative integer at every call of the source (\<^verbatim>\<open>i + 0\<close>, \<^verbatim>\<open>i + 1\<close>,
  \<^verbatim>\<open>prev.length\<close>), hence a \<^typ>\<open>nat\<close>, on which the remainder of JavaScript is \<open>mod\<close>.
\<close>

definition pickTimeframe :: "nat \<Rightarrow> string" where
  "pickTimeframe idx = DEFAULT_TIMEFRAMES ! (idx mod length DEFAULT_TIMEFRAMES)"

section \<open>The domain classifier\<close>

text \<open>
  White space as \<^verbatim>\<open>\s\<close> and \<^verbatim>\<open>trim\<close> take it: the white space and the line terminators
  of ECMAScript, that is U+0009 to U+000D, U+0020, U+00A0, U+1680, U+2000 to U+200A,
  U+2028, U+2029, U+202F, U+205F, U+3000 and U+FEFF. The dot of a regular expression
  matches every code unit but the line terminators U+000A, U+000D, U+2028, U+2029.
\<close>

definition is_space :: "code_unit \<Rightarrow> bool" where
  "is_space c =
     (c \<in> set [0x09, 0x0A, 0x0B, 0x0C, 0x0D, 0x20, 0xA0, 0x1680, 0x2028, 0x2029, 0x202F,
                0x205F, 0x3000, 0xFEFF]
      \<or> (0x2000 \<le> c \<and> c \<le> 0x200A))"

definition line_terminator :: "code_unit \<Rightarrow> bool" where
  "line_terminator c = (c \<in> set [0x0A, 0x0D, 0x2028, 0x2029])"

text \<open>
  \<^verbatim>\<open>context.toLowerCase()\<close> belongs to the runtime. \<open>fixed_lower\<close> is the part of it the
  model writes out: the letters \<open>A\<close> to \<open>Z\<close> become \<open>a\<close> to \<open>z\<close>; the other ASCII units and
  white space stay; and the two characters outside ASCII whose lower case contains an ASCII
  letter: U+0130 becomes \<open>i\<close> followed by U+0307, and U+212A (the Kelvin sign) becomes
  \<open>k\<close>. The lower case of any other code unit depends on its neighbours (surrogate pairs,
  the final sigma) and is left to the parameter \<open>other\<close>: \<open>other s i\<close> is what the runtime
  puts for the unit at position \<open>i\<close> of \<open>s\<close>. The result is the concatenation over the
  positions of the text.
\<close>

definition fixed_lower :: "code_unit \<Rightarrow> jsstring option" where
  "fixed_lower c =
     (if 0x41 \<le> c \<and> c \<le> 0x5A then Some [c + 0x20]
      else if c < 0x80 \<or> is_space c then Some [c]
      else if c = 0x0130 then Some [0x69, 0x0307]
      else if c = 0x212A then Some [0x6B]
      else None)"

definition toLowerCase :: "(jsstring \<Rightarrow> nat \<Rightarrow> jsstring) \<Rightarrow> jsstring \<Rightarrow> jsstring" where
  "toLowerCase other s =
     concat (map (\<lambda>i. case fixed_lower (s ! i) of Some l \<Rightarrow> l | None \<Rightarrow> other s i)
               [0..<length s])"

text \<open>
  The regular expressions of \<^verbatim>\<open>inferDomain\<close> are unanchored alternations of literal words,
  so \<^verbatim>\<open>/(w1|w2|...)/.test(lc)\<close> holds when one of the words occurs in \<open>lc\<close> as a
  contiguous run of code units. \<open>starts_with w s\<close> is a match of the literal \<open>w\<close> at the
  head of \<open>s\<close>, \<open>contains w s\<close> a match at some position of \<open>s\<close>.
\<close>

fun starts_with :: "jsstring \<Rightarrow> jsstring \<Rightarrow> bool" where
  "starts_with [] s = True"
| "starts_with (c # w) [] = False"
| "starts_with (c # w) (d # s) = (c = d \<and> starts_with w s)"

fun contains :: "jsstring \<Rightarrow> jsstring \<Rightarrow> bool" where
  "contains w [] = starts_with w []"
| "contains w (c # s) = (starts_with w (c # s) \<or> contains w s)"

definition test_any :: "jsstring list \<Rightarrow> jsstring \<Rightarrow> bool" where
  "test_any ws s = list_ex (\<lambda>w. contains w s) ws"

text \<open>
  The two alternatives \<^verbatim>\<open>build.*computer\<close> and \<^verbatim>\<open>gaming.*rig\<close> of the third expression: the
  second word has to occur after the first one and before the next line terminator.
\<close>

fun starts_then :: "jsstring \<Rightarrow> jsstring \<Rightarrow> jsstring \<Rightarrow> bool" where
  "starts_then [] b s = contains b (takeWhile (\<lambda>c. \<not> line_terminator c) s)"
| "starts_then (c # a) b [] = False"
| "starts_then (c # a) b (d # s) = (c = d \<and> starts_then a b s)"

fun contains_then :: "jsstring \<Rightarrow> jsstring \<Rightarrow> jsstring \<Rightarrow> bool" where
  "contains_then a b [] = starts_then a b []"
| "contains_then a b (c # s) = (starts_then a b (c # s) \<or> contains_then a b s)"

datatype domain = Exam | Moving | Pc | Travel | Fitness | Generic

definition exam_words :: "jsstring list" where
  "exam_words = map units [''exam'', ''study'', ''college'', ''test'', ''syllabus'']"

definition moving_words :: "jsstring list" where
  "moving_words = map units [''move'', ''relocat'', ''apartment'', ''pack'', ''shifting'']"

definition travel_words :: "jsstring list" where
  "travel_words = map units [''travel'', ''trip'', ''itinerary'', ''flight'', ''hotel'']"

definition fitness_words :: "jsstring list" where
  "fitness_words = map units [''fitness'', ''workout'', ''diet'', ''health'', ''gym'']"

text \<open>\<^verbatim>\<open>/(pc|build.*computer|gaming.*rig|components|parts)/.test(lc)\<close>, in the order written.\<close>

definition test_pc :: "jsstring \<Rightarrow> bool" where
  "test_pc lc =
     (contains (units ''pc'') lc \<or> contains_then (units ''build'') (units ''computer'') lc
      \<or> contains_then (units ''gaming'') (units ''rig'') lc
      \<or> contains (units ''components'') lc \<or> contains (units ''parts'') lc)"

text \<open>
  \<^verbatim>\<open>function inferDomain(context)\<close>: five tests on the lower-cased text, the first that
  succeeds returns; the strings the source returns are the constructors of \<^typ>\<open>domain\<close>.
\<close>

definition inferDomain :: "(jsstring \<Rightarrow> nat \<Rightarrow> jsstring) \<Rightarrow> jsstring \<Rightarrow> domain" where
  "inferDomain other ctx =
     (let lc = toLowerCase other ctx in
      if test_any exam_words lc then Exam
      else if test_any moving_words lc then Moving
      else if test_pc lc then Pc
      else if test_any travel_words lc then Travel
      else if test_any fitness_words lc then Fitness
      else Generic)"

section \<open>The task synthesizer\<close>

text \<open>A task as the application stores it: \<^verbatim>\<open>{ id, name, description, timeframe, completed }\<close>.\<close>

record task =
  task_id :: string
  name :: string
  description :: string
  timeframe :: string
  completed :: bool

datatype role = Research | Plan | Resources | Execute | Review

text \<open>The array \<^verbatim>\<open>base\<close> of \<^verbatim>\<open>generateTasks\<close>: the role keys with their display names.\<close>

definition base :: "(role \<times> string) list" where
  "base =
     [(Research, ''Research essentials''),
      (Plan, ''Draft a plan''),
      (Resources, ''List resources & tools''),
      (Execute, ''Execute first milestone''),
      (Review, ''Review & next steps'')]"

text \<open>The object \<^verbatim>\<open>domainHints\<close> before its selection by \<^verbatim>\<open>[domain]\<close>.\<close>

fun domainHints :: "domain \<Rightarrow> role \<Rightarrow> string" where
  "domainHints Exam Research = ''Outline subjects and weightage from the syllabus.''"
| "domainHints Exam Plan = ''Create a 2-week timetable with daily topics.''"
| "domainHints Exam Resources = ''Gather notes, past papers, and flashcards.''"
| "domainHints Exam Execute = ''Study the first topic and attempt 10 practice questions.''"
| "domainHints Exam Review = ''Revise mistakes and adjust timetable.''"
| "domainHints Moving Research = ''List must-have vs. discard items.''"
| "domainHints Moving Plan = ''Create packing schedule and room-wise checklist.''"
| "domainHints Moving Resources = ''Arrange boxes, labels, and transport.''"
| "domainHints Moving Execute = ''Pack non-essentials and label boxes.''"
| "domainHints Moving Review = ''Confirm mover timings; update address where needed.''"
| "domainHints Pc Research = ''Pick target use-case, budget, and performance goals.''"
| "domainHints Pc Plan = ''Draft parts list (CPU, GPU, RAM, SSD, PSU, case).''"
| "domainHints Pc Resources = ''Compare prices; ensure component compatibility.''"
| "domainHints Pc Execute = ''Order parts or assemble mock build in a PCPartPicker clone.''"
| "domainHints Pc Review = ''Cable-manage, run benchmarks, and validate thermals.''"
| "domainHints Travel Research = ''Choose destination, season, and budget.''"
| "domainHints Travel Plan = ''Sketch a 3'' @ en_dash @ ''5 day itinerary with must-see spots.''"
| "domainHints Travel Resources = ''Check visas, flights, accommodation, and insurance.''"
| "domainHints Travel Execute = ''Book flights/hotels and set calendar reminders.''"
| "domainHints Travel Review = ''Share itinerary and offline maps to your phone.''"
| "domainHints Fitness Research = ''Define goals (strength, fat-loss, endurance).''"
| "domainHints Fitness Plan = ''Schedule 3'' @ en_dash @ ''4 weekly sessions with progressive overload.''"
| "domainHints Fitness Resources = ''Set up gear, nutrition plan, and tracker app.''"
| "domainHints Fitness Execute = ''Complete first workout and log metrics.''"
| "domainHints Fitness Review = ''Assess soreness, sleep, and adjust plan.''"
| "domainHints Generic Research = ''Clarify objectives and success criteria.''"
| "domainHints Generic Plan = ''Break work into 3'' @ en_dash @ ''5 milestones.''"
| "domainHints Generic Resources = ''List tools, people, or budget needed.''"
| "domainHints Generic Execute = ''Complete first milestone with a small deliverable.''"
| "domainHints Generic Review = ''Retrospect and plan the next block.''"

text \<open>
  \<^verbatim>\<open>(context || "").match(/(\d+)\s*task/)\<close>. The class \<^verbatim>\<open>\d\<close> is the ten ASCII digits, \<^verbatim>\<open>\s\<close>
  is \<open>is_space\<close>.

  \<open>task_match_at s\<close> is the attempt of the expression at the head of \<open>s\<close>; it returns
  the text of the group \<^verbatim>\<open>(\d+)\<close>. Both quantifiers are greedy, and giving units back
  never helps: after a shorter run of digits the next unit is a digit, after a shorter
  run of white space it is white space, and neither is the \<open>t\<close> of \<open>task\<close>. So the
  attempt succeeds exactly when the longest run of digits, then the longest run of white
  space, is followed by \<open>task\<close>. \<open>task_match s\<close> tries the start positions from left to
  right and stops at the first success, as \<^verbatim>\<open>String.prototype.match\<close> does without the
  \<^verbatim>\<open>g\<close> flag.
\<close>

definition is_digit :: "code_unit \<Rightarrow> bool" where
  "is_digit c = (0x30 \<le> c \<and> c \<le> 0x39)"

definition task_match_at :: "jsstring \<Rightarrow> jsstring option" where
  "task_match_at s =
     (let ds = takeWhile is_digit s;
          rest = dropWhile is_space (dropWhile is_digit s)
      in if ds \<noteq> [] \<and> starts_with (units ''task'') rest then Some ds else None)"

fun task_match :: "jsstring \<Rightarrow> jsstring option" where
  "task_match [] = task_match_at []"
| "task_match (c # s) =
     (case task_match_at (c # s) of Some ds \<Rightarrow> Some ds | None \<Rightarrow> task_match s)"

text \<open>
  The pattern in the words of the specification: \<open>task_occurrence s ds\<close> holds when \<open>s\<close>
  begins with the non-empty run of digits \<open>ds\<close>, then white space (possibly none), then
  the literal \<open>task\<close>. It is compared with \<open>task_match_at\<close> below.
\<close>

definition task_occurrence :: "jsstring \<Rightarrow> jsstring \<Rightarrow> bool" where
  "task_occurrence s ds =
     (ds \<noteq> [] \<and> (\<forall>c\<in>set ds. is_digit c)
      \<and> (\<exists>ws rest. (\<forall>c\<in>set ws. is_space c) \<and> s = ds @ ws @ units ''task'' @ rest))"

text \<open>
  \<^verbatim>\<open>parseInt(match[1], 10)\<close> on a run of decimal digits. The model computes the exact
  number; JavaScript rounds a run of more than fifteen digits to a double (possibly
  \<open>Infinity\<close>), which is still at least 5, so that the clamped value is the same.
\<close>

definition digit_value :: "code_unit \<Rightarrow> nat" where
  "digit_value c = c - 0x30"

definition parseInt :: "jsstring \<Rightarrow> nat" where
  "parseInt ds = foldl (\<lambda>n c. 10 * n + digit_value c) 0 ds"

text \<open>
  \<^verbatim>\<open>let desired = match ? Math.min(5, Math.max(3, parseInt(match[1], 10))) : tasks.length;\<close>
  with \<open>n\<close> for \<^verbatim>\<open>tasks.length\<close>.
\<close>

definition desired :: "jsstring \<Rightarrow> nat \<Rightarrow> nat" where
  "desired ctx n =
     (case task_match ctx of
        Some ds \<Rightarrow> min 5 (max 3 (parseInt ds))
      | None \<Rightarrow> n)"

text \<open>
  \<^verbatim>\<open>function generateTasks(context)\<close>. The argument is a string, on which
  \<^verbatim>\<open>context || ""\<close> is the string itself. \<^verbatim>\<open>uid()\<close> reads the random generator and the
  clock; \<open>uid i\<close> stands for the value it returns for the element of index \<open>i\<close> of
  \<^verbatim>\<open>base.map\<close>.
\<close>

definition generateTasks ::
  "(jsstring \<Rightarrow> nat \<Rightarrow> jsstring) \<Rightarrow> (nat \<Rightarrow> string) \<Rightarrow> jsstring \<Rightarrow> task list" where
  "generateTasks other uid ctx =
     (let domain = inferDomain other ctx;
          hints = domainHints domain;
          tasks = map (\<lambda>(i, (k, n)).
                    \<lparr>task_id = uid i,
                     name = n,
                     description = hints k,
                     timeframe = pickTimeframe (i + (if domain = Generic then 1 else 0)),
                     completed = False\<rparr>)
                  (enumerate 0 base)
      in take (desired ctx (length tasks)) tasks)"

text \<open>The array \<^verbatim>\<open>tasks\<close> of \<^verbatim>\<open>generateTasks\<close> before the slice, for a given domain.\<close>

definition all_tasks :: "(nat \<Rightarrow> string) \<Rightarrow> domain \<Rightarrow> task list" where
  "all_tasks uid d = map (\<lambda>(i, (k, n)).
                    \<lparr>task_id = uid i,
                     name = n,
                     description = domainHints d k,
                     timeframe = pickTimeframe (i + (if d = Generic then 1 else 0)),
                     completed = False\<rparr>)
                  (enumerate 0 base)"

section \<open>The application state and its actions\<close>

text \<open>
  The notice of the component \<^verbatim>\<open>App\<close>: \<^verbatim>\<open>{ type, message }\<close> with the two types the
  actions below set, or \<^verbatim>\<open>null\<close>.
\<close>

datatype notice_type = Success | Error

record notice_rec =
  kind :: notice_type
  message :: string

text \<open>
  The state hooks the actions read and write: the context text, the task list, the
  webhook URL and the notice. (The editing hooks \<^verbatim>\<open>editingId\<close> and \<^verbatim>\<open>editDraft\<close> are not
  touched by them.)
\<close>

record app_state =
  contextText :: jsstring
  tasks :: "task list"
  webhookUrl :: string
  notice :: "notice_rec option"

text \<open>\<^verbatim>\<open>String.prototype.trim\<close>: white space (\<open>is_space\<close>) is removed at both ends.\<close>

definition trim :: "jsstring \<Rightarrow> jsstring" where
  "trim s = rev (dropWhile is_space (rev (dropWhile is_space s)))"

text \<open>The decimal text of a number inside a template literal.\<close>

fun show_nat :: "nat \<Rightarrow> string" where
  "show_nat n =
     (if n < 10 then [''0123456789'' ! n]
      else show_nat (n div 10) @ [''0123456789'' ! (n mod 10)])"

declare show_nat.simps [simp del]

text \<open>
  \<^verbatim>\<open>function addGenerated()\<close>: an early return with an error notice when the trimmed
  context is empty, otherwise the generated list replaces the stored one.
\<close>

definition addGenerated ::
  "(jsstring \<Rightarrow> nat \<Rightarrow> jsstring) \<Rightarrow> (nat \<Rightarrow> string) \<Rightarrow> app_state \<Rightarrow> app_state" where
  "addGenerated other uid st =
     (if trim (contextText st) = [] then
        st\<lparr>notice := Some \<lparr>kind = Error, message = ''Please enter some context first.''\<rparr>\<rparr>
      else
        let generated = generateTasks other uid (trim (contextText st)) in
        st\<lparr>tasks := generated,
           notice := Some \<lparr>kind = Success,
             message = ''Generated '' @ show_nat (length generated) @ '' task(s).''\<rparr>\<rparr>)"

text \<open>
  The values the payload is built from, and the payload of \<^verbatim>\<open>toggleComplete\<close>. A string
  value is a \<open>JString\<close>, or a \<open>JText\<close> when it is a context text, given by its code
  units.
\<close>

datatype json =
    JString string
  | JText jsstring
  | JNumber int
  | JBool bool
  | JObject "(string \<times> json) list"

definition payload :: "string \<Rightarrow> task \<Rightarrow> jsstring \<Rightarrow> json" where
  "payload now task ctx =
     JObject
       [(''event'', JString ''task_completed''),
        (''timestamp'', JString now),
        (''source'', JString ''taskgen-local-app''),
        (''version'', JNumber 1),
        (''task'', JObject
           [(''id'', JString (task_id task)),
            (''name'', JString (name task)),
            (''description'', JString (description task)),
            (''timeframe'', JString (timeframe task)),
            (''completed'', JBool True)]),
        (''context'', JText ctx)]"

text \<open>
  A call of \<^verbatim>\<open>fetch\<close>: the address and the options object. What the transport answers:
  a response, whose \<^verbatim>\<open>res.text()\<close> settles with the body (\<open>Some\<close>) or fails (\<open>None\<close>), or
  a rejection with the message of the error, if it has one (\<^verbatim>\<open>err?.message\<close>). The flag
  \<^verbatim>\<open>res.ok\<close> is not stored: the Fetch standard defines it as a status from 200 to 299.
\<close>

record request =
  url :: string
  http_method :: string
  headers :: "(string \<times> string) list"
  body :: string

record response =
  status :: nat
  statusText :: string
  bodyText :: "string option"

definition ok :: "response \<Rightarrow> bool" where
  "ok res = (200 \<le> status res \<and> status res \<le> 299)"

datatype fetch_result = Resolved response | Rejected "string option"

datatype console_entry =
    Warn string string
  | ErrorLog string "string option"

text \<open>
  \<^verbatim>\<open>function toggleComplete(task)\<close> up to the call of \<^verbatim>\<open>fetch\<close>. It returns the new state
  and the calls of \<^verbatim>\<open>fetch\<close> it has issued. \<open>now\<close> is the value of
  \<^verbatim>\<open>new Date().toISOString()\<close> at the call, \<open>stringify\<close> is \<^verbatim>\<open>JSON.stringify\<close>.
\<close>

definition toggleComplete ::
  "string \<Rightarrow> (json \<Rightarrow> string) \<Rightarrow> app_state \<Rightarrow> task \<Rightarrow> app_state \<times> request list" where
  "toggleComplete now stringify st task =
     (let updated = task\<lparr>completed := \<not> completed task\<rparr>;
          st1 = st\<lparr>tasks := map (\<lambda>t. if task_id t = task_id task then updated else t) (tasks st)\<rparr>
      in if \<not> completed task then
           if webhookUrl st = [] then
             (st1\<lparr>notice := Some \<lparr>kind = Error,
                 message = ''No webhook URL set. Open Settings to add one.''\<rparr>\<rparr>, [])
           else
             (st1, [\<lparr>url = webhookUrl st,
                     http_method = ''POST'',
                     headers = [(''Content-Type'', ''application/json'')],
                     body = stringify (payload now task (contextText st))\<rparr>])
         else (st1, []))"

text \<open>
  The handlers \<^verbatim>\<open>.then(...)\<close> and \<^verbatim>\<open>.catch(...)\<close> on the promise of \<^verbatim>\<open>fetch\<close>, run on the
  state of the moment the promise settles. They return the new state and what they write
  to the console.
\<close>

definition webhook_settled :: "fetch_result \<Rightarrow> app_state \<Rightarrow> app_state \<times> console_entry list" where
  "webhook_settled r st =
     (case r of
        Resolved res \<Rightarrow>
          (let text = (case bodyText res of Some t \<Rightarrow> t | None \<Rightarrow> [])
           in (st\<lparr>notice := Some
                 \<lparr>kind = (if ok res then Success else Error),
                  message = (if ok res then ''Webhook sent successfully.''
                             else ''Webhook failed: '' @ show_nat (status res) @ '' '' @ statusText res)\<rparr>\<rparr>,
               if \<not> ok res \<and> text \<noteq> [] then [Warn ''Webhook error body:'' text] else []))
      | Rejected msg \<Rightarrow>
          (st\<lparr>notice := Some
             \<lparr>kind = Error,
              message = ''Webhook error: '' @
                (case msg of Some m \<Rightarrow> if m \<noteq> [] then m else ''Network error''
                 | None \<Rightarrow> ''Network error'')\<rparr>\<rparr>,
           [ErrorLog ''Webhook error:'' msg]))"

text \<open>
  The whole of \<^verbatim>\<open>toggleComplete\<close> against a transport \<open>fetch\<close>, when no other event comes
  between the call and its settlement.
\<close>

definition toggleComplete_settled ::
  "(request \<Rightarrow> fetch_result) \<Rightarrow> string \<Rightarrow> (json \<Rightarrow> string) \<Rightarrow> app_state \<Rightarrow> task
     \<Rightarrow> app_state \<times> request list \<times> console_entry list" where
  "toggleComplete_settled fetch now stringify st task =
     (let (st1, calls) = toggleComplete now stringify st task in
      case calls of
        [] \<Rightarrow> (st1, calls, [])
      | req # _ \<Rightarrow> (let (st2, out) = webhook_settled (fetch req) st1 in (st2, calls, out)))"

section \<open>Sample values\<close>

text \<open>
  Two stored tasks, one open and one completed, and a state with a webhook URL; a third
  task that carries the identifier of the first one, and a state that stores both; a
  runtime that leaves the units outside \<open>fixed_lower\<close> as they are, an identifier source
  and a serialiser.
\<close>

definition task1 :: task where
  "task1 = \<lparr>task_id = ''a1'', name = ''Draft a plan'', description = ''Break work down.'',
            timeframe = ''1 hour'', completed = False\<rparr>"

definition task2 :: task where
  "task2 = \<lparr>task_id = ''b2'', name = ''Review & next steps'', description = ''Look back.'',
            timeframe = ''1 day'', completed = True\<rparr>"

definition task3 :: task where
  "task3 = \<lparr>task_id = ''a1'', name = ''Research essentials'', description = ''Read up.'',
            timeframe = ''2 hours'', completed = False\<rparr>"

definition state1 :: app_state where
  "state1 = \<lparr>contextText = units ''plan a trip'', tasks = [task1, task2],
             webhookUrl = ''https://example.test/hook'', notice = None\<rparr>"

definition state2 :: app_state where
  "state2 = \<lparr>contextText = units ''plan a trip'', tasks = [task1, task3],
             webhookUrl = ''https://example.test/hook'', notice = None\<rparr>"

definition other1 :: "jsstring \<Rightarrow> nat \<Rightarrow> jsstring" where
  "other1 s i = [s ! i]"

definition uid1 :: "nat \<Rightarrow> string" where
  "uid1 i = ''id'' @ replicate i CHR ''x''"

definition stringify1 :: "json \<Rightarrow> string" where
  "stringify1 j = []"

section \<open>Properties of the timeframe cycle\<close>

lemma length_DEFAULT_TIMEFRAMES: "length DEFAULT_TIMEFRAMES = 7"
  by (simp add: DEFAULT_TIMEFRAMES_def)

text \<open>
  Claim C8. \<open>timeframe_at\<close> is \<open>pickTimeframe\<close>. For every non-negative index the label is
  the entry of the seven-label cycle at position \<open>index mod 7\<close>; that position lies inside
  the cycle, so the read is always defined; the cycle holds the seven labels of the
  specification in their order; the function has period seven, and index 7 gives the label
  of index 0.
\<close>

theorem pickTimeframe_cyclic:
  "pickTimeframe i = DEFAULT_TIMEFRAMES ! (i mod 7)
   \<and> i mod 7 < length DEFAULT_TIMEFRAMES
   \<and> pickTimeframe i \<in> set DEFAULT_TIMEFRAMES
   \<and> DEFAULT_TIMEFRAMES =
       [''15 minutes'', ''30 minutes'', ''1 hour'', ''2 hours'', ''Half day'', ''1 day'',
        ''2'' @ [CHR 0xE2, CHR 0x80, CHR 0x93] @ ''3 days'']
   \<and> pickTimeframe (i + 7) = pickTimeframe i
   \<and> pickTimeframe 7 = pickTimeframe 0"
proof -
  have len: "length DEFAULT_TIMEFRAMES = 7"
    by (rule length_DEFAULT_TIMEFRAMES)
  have inside: "i mod 7 < length DEFAULT_TIMEFRAMES"
    by (simp add: len)
  have at: "pickTimeframe i = DEFAULT_TIMEFRAMES ! (i mod 7)"
    by (simp add: pickTimeframe_def len)
  have member: "pickTimeframe i \<in> set DEFAULT_TIMEFRAMES"
    unfolding at using inside by (rule nth_mem)
  have labels: "DEFAULT_TIMEFRAMES =
       [''15 minutes'', ''30 minutes'', ''1 hour'', ''2 hours'', ''Half day'', ''1 day'',
        ''2'' @ [CHR 0xE2, CHR 0x80, CHR 0x93] @ ''3 days'']"
    by (simp add: DEFAULT_TIMEFRAMES_def en_dash_def)
  have period: "pickTimeframe (i + 7) = pickTimeframe i"
    by (simp add: pickTimeframe_def len)
  have wrap: "pickTimeframe 7 = pickTimeframe 0"
    by (simp add: pickTimeframe_def len)
  from at inside member labels period wrap show ?thesis
    by blast
qed

section \<open>Properties of the classifier\<close>

lemma starts_with_prefix: "starts_with w s \<longleftrightarrow> prefix w s"
  by (induction w s rule: starts_with.induct) simp_all

lemma contains_sublist: "contains w s \<longleftrightarrow> sublist w s"
proof (induction s)
  case Nil
  show ?case by (cases w) simp_all
next
  case (Cons c s)
  then show ?case by (simp add: sublist_Cons_right starts_with_prefix)
qed

lemma test_any_iff: "test_any ws s \<longleftrightarrow> (\<exists>w\<in>set ws. sublist w s)"
  by (simp add: test_any_def list_ex_iff contains_sublist)

lemma fixed_lower_space: 
  assumes "is_space c"
  shows "fixed_lower c = Some [c]"
proof -
  from assms have "\<not> (0x41 \<le> c \<and> c \<le> 0x5A)"
    unfolding is_space_def by auto
  with assms show ?thesis
    by (simp add: fixed_lower_def)
qed

lemma fixed_lower_ascii: "c < 0x80 \<Longrightarrow> fixed_lower c \<noteq> None"
  by (simp add: fixed_lower_def)

lemma toLowerCase_fixed:
  assumes "\<forall>c\<in>set s. fixed_lower c \<noteq> None"
  shows "toLowerCase other s = concat (map (\<lambda>c. the (fixed_lower c)) s)"
proof -
  have "map (\<lambda>i. case fixed_lower (s ! i) of Some l \<Rightarrow> l | None \<Rightarrow> other s i) [0..<length s] =
      map (\<lambda>i. the (fixed_lower (s ! i))) [0..<length s]"
  proof (rule map_cong [OF refl])
    fix i assume "i \<in> set [0..<length s]"
    then have "s ! i \<in> set s" by simp
    with assms have "fixed_lower (s ! i) \<noteq> None" by blast
    then show "(case fixed_lower (s ! i) of Some l \<Rightarrow> l | None \<Rightarrow> other s i) =
        the (fixed_lower (s ! i))"
      by (cases "fixed_lower (s ! i)") simp_all
  qed
  also have "\<dots> = map (\<lambda>c. the (fixed_lower c)) (map (\<lambda>i. s ! i) [0..<length s])"
    by simp
  also have "\<dots> = map (\<lambda>c. the (fixed_lower c)) s"
    by (simp only: map_nth)
  finally show ?thesis
    by (simp only: toLowerCase_def)
qed

lemma toLowerCase_segment:
  assumes "\<forall>c\<in>set u. fixed_lower c \<noteq> None"
  shows "\<exists>a b. toLowerCase other (p @ u @ q) = a @ toLowerCase other u @ b"
proof -
  let ?s = "p @ u @ q"
  let ?f = "\<lambda>i. case fixed_lower (?s ! i) of Some l \<Rightarrow> l | None \<Rightarrow> other ?s i"
  have split: "[0..<length ?s] =
      [0..<length p] @ [length p..<length p + length u]
        @ [length p + length u..<length p + length u + length q]"
  proof -
    have a: "[0..<length p + length u] = [0..<length p] @ [length p..<length p + length u]"
      by (rule upt_add_eq_append) simp
    have b: "[0..<length p + length u + length q] =
        [0..<length p + length u] @ [length p + length u..<length p + length u + length q]"
      by (rule upt_add_eq_append) simp
    have "length ?s = length p + length u + length q"
      by simp
    then show ?thesis
      by (simp only: a b append_assoc)
  qed
  have mid: "map ?f [length p..<length p + length u] = map (\<lambda>c. the (fixed_lower c)) u"
  proof (rule nth_equalityI)
    show "length (map ?f [length p..<length p + length u]) =
        length (map (\<lambda>c. the (fixed_lower c)) u)"
      by simp
  next
    fix i assume "i < length (map ?f [length p..<length p + length u])"
    then have i: "i < length u" by simp
    then have at: "?s ! (length p + i) = u ! i"
      by (simp add: nth_append)
    from i have "u ! i \<in> set u" by simp
    with assms have "fixed_lower (u ! i) \<noteq> None" by blast
    then have "?f (length p + i) = the (fixed_lower (u ! i))"
      unfolding at by (cases "fixed_lower (u ! i)") simp_all
    moreover from i have "[length p..<length p + length u] ! i = length p + i"
      by simp
    moreover from i have "map ?f [length p..<length p + length u] ! i =
        ?f ([length p..<length p + length u] ! i)"
      by (intro nth_map) simp
    moreover from i have "map (\<lambda>c. the (fixed_lower c)) u ! i = the (fixed_lower (u ! i))"
      by (rule nth_map)
    ultimately show "map ?f [length p..<length p + length u] ! i =
        map (\<lambda>c. the (fixed_lower c)) u ! i"
      by (simp only:)
  qed
  have "toLowerCase other ?s =
      concat (map ?f [0..<length p]) @ concat (map ?f [length p..<length p + length u])
        @ concat (map ?f [length p + length u..<length p + length u + length q])"
    unfolding toLowerCase_def split by simp
  also have "concat (map ?f [length p..<length p + length u]) = toLowerCase other u"
    by (simp only: mid toLowerCase_fixed [OF assms])
  finally show ?thesis by blast
qed

lemma toLowerCase_sublist:
  assumes "sublist u s" and "\<forall>c\<in>set u. fixed_lower c \<noteq> None"
  shows "sublist (toLowerCase other u) (toLowerCase other s)"
proof -
  from assms(1) obtain p q where s: "s = p @ u @ q"
    by (auto simp: sublist_def)
  from toLowerCase_segment [OF assms(2), of other p q]
  obtain a b where "toLowerCase other (p @ u @ q) = a @ toLowerCase other u @ b"
    by blast
  then show ?thesis
    unfolding s by (simp only: sublist_appendI)
qed

lemma blank_toLowerCase:
  assumes "\<forall>c\<in>set s. is_space c"
  shows "toLowerCase other s = s"
proof -
  from assms have f: "\<forall>c\<in>set s. fixed_lower c \<noteq> None"
    by (simp add: fixed_lower_space)
  have "map (\<lambda>c. the (fixed_lower c)) s = map (\<lambda>c. [c]) s"
    using assms by (intro map_cong [OF refl]) (simp add: fixed_lower_space)
  then have "toLowerCase other s = concat (map (\<lambda>c. [c]) s)"
    by (simp only: toLowerCase_fixed [OF f])
  also have "\<dots> = s"
    by (induction s) simp_all
  finally show ?thesis .
qed

lemma contains_takeWhile:
  assumes "\<forall>c\<in>set b. P c"
  shows "contains b (takeWhile P s) \<longleftrightarrow> (\<exists>m q. s = m @ b @ q \<and> (\<forall>c\<in>set m. P c))"
proof
  assume "contains b (takeWhile P s)"
  then obtain x y where xy: "takeWhile P s = x @ b @ y"
    by (auto simp: contains_sublist sublist_def)
  have "s = takeWhile P s @ dropWhile P s" by simp
  with xy have "s = x @ b @ (y @ dropWhile P s)" by simp
  moreover have "\<forall>c\<in>set x. P c"
  proof
    fix c assume "c \<in> set x"
    then have "c \<in> set (takeWhile P s)" by (simp add: xy)
    then show "P c" by (rule set_takeWhileD [THEN conjunct2])
  qed
  ultimately show "\<exists>m q. s = m @ b @ q \<and> (\<forall>c\<in>set m. P c)" by blast
next
  assume "\<exists>m q. s = m @ b @ q \<and> (\<forall>c\<in>set m. P c)"
  then obtain m q where s: "s = m @ b @ q" and m: "\<forall>c\<in>set m. P c" by blast
  from m assms have "takeWhile P s = m @ b @ takeWhile P q"
    by (simp add: s takeWhile_append2)
  then show "contains b (takeWhile P s)"
    by (simp add: contains_sublist)
qed

lemma starts_then_iff:
  assumes "\<forall>c\<in>set b. \<not> line_terminator c"
  shows "starts_then a b s \<longleftrightarrow>
         (\<exists>m q. s = a @ m @ b @ q \<and> (\<forall>c\<in>set m. \<not> line_terminator c))"
proof (induction a arbitrary: s)
  case Nil
  show ?case
    using contains_takeWhile [OF assms, of s] by simp
next
  case (Cons c a)
  show ?case
  proof (cases s)
    case Nil
    then show ?thesis by simp
  next
    case (Cons d t)
    then show ?thesis using Cons.IH [of t] by auto
  qed
qed

lemma contains_then_iff:
  assumes "\<forall>c\<in>set b. \<not> line_terminator c"
  shows "contains_then a b s \<longleftrightarrow>
         (\<exists>p m q. s = p @ a @ m @ b @ q \<and> (\<forall>c\<in>set m. \<not> line_terminator c))"
proof (induction s)
  case Nil
  show ?case by (simp add: starts_then_iff [OF assms])
next
  case (Cons d s)
  show ?case
  proof
    assume "contains_then a b (d # s)"
    then consider "starts_then a b (d # s)" | "contains_then a b s" by auto
    then show "\<exists>p m q. d # s = p @ a @ m @ b @ q \<and> (\<forall>c\<in>set m. \<not> line_terminator c)"
    proof cases
      case 1
      then obtain m q where "d # s = [] @ a @ m @ b @ q" "\<forall>c\<in>set m. \<not> line_terminator c"
        by (auto simp: starts_then_iff [OF assms])
      then show ?thesis by blast
    next
      case 2
      then obtain p m q where "s = p @ a @ m @ b @ q" "\<forall>c\<in>set m. \<not> line_terminator c"
        by (auto simp: Cons.IH)
      then have "d # s = (d # p) @ a @ m @ b @ q" by simp
      with \<open>\<forall>c\<in>set m. \<not> line_terminator c\<close> show ?thesis by blast
    qed
  next
    assume "\<exists>p m q. d # s = p @ a @ m @ b @ q \<and> (\<forall>c\<in>set m. \<not> line_terminator c)"
    then obtain p m q where e: "d # s = p @ a @ m @ b @ q" and m: "\<forall>c\<in>set m. \<not> line_terminator c"
      by blast
    show "contains_then a b (d # s)"
    proof (cases p)
      case Nil
      with e m have "starts_then a b (d # s)"
        by (auto simp: starts_then_iff [OF assms])
      then show ?thesis by simp
    next
      case (Cons d' p')
      with e have "s = p' @ a @ m @ b @ q" by simp
      with m have "\<exists>p m q. s = p @ a @ m @ b @ q \<and> (\<forall>c\<in>set m. \<not> line_terminator c)"
        by blast
      then have "contains_then a b s" by (simp only: Cons.IH)
      then show ?thesis by simp
    qed
  qed
qed

lemma blank_no_word:
  assumes blank: "\<forall>c\<in>set s. is_space c" and w: "w \<noteq> []" "\<not> is_space (hd w)"
  shows "\<not> sublist w s"
proof
  assume "sublist w s"
  then have "set w \<subseteq> set s" by (rule set_mono_sublist)
  moreover from w have "hd w \<in> set w" by simp
  ultimately have "is_space (hd w)" using blank by blast
  with w show False by simp
qed

lemma blank_no_pair:
  assumes blank: "\<forall>c\<in>set s. is_space c" and a: "a \<noteq> []" "\<not> is_space (hd a)"
  shows "s \<noteq> p @ a @ m @ b @ q"
proof
  assume "s = p @ a @ m @ b @ q"
  then have "sublist a s" by (simp add: sublist_def) blast
  with blank_no_word [OF blank a] show False by simp
qed

text \<open>
  Claim C2. \<open>classify\<close> is \<open>inferDomain\<close>. The input is lower-cased and the five
  keyword groups are tested on the lower-cased text in the order exam, moving, pc, travel,
  fitness, each by containment of one of its words (for the two phrases of the pc group:
  the first word, then units other than line terminators, then the second word); the
  first group that matches gives the domain, and the domain is generic when none does.
  An input that contains, in any letter case, an exam keyword and a travel keyword is
  classified as exam. An input made of white space only, the empty input included, is
  classified as generic. All of this holds for every input and whatever the runtime puts
  for the units that \<open>fixed_lower\<close> leaves open. Two inputs outside ASCII are evaluated:
  \<open>PAC\<close> followed by the Kelvin sign is a moving text, and a line separator between
  \<open>build\<close> and \<open>computer\<close> keeps the pc phrase from matching.
\<close>

theorem inferDomain_priority:
  "(let lc = toLowerCase other ctx;
        exam = (\<exists>w\<in>set (map units [''exam'', ''study'', ''college'', ''test'', ''syllabus'']).
                  sublist w lc);
        moving = (\<exists>w\<in>set (map units [''move'', ''relocat'', ''apartment'', ''pack'', ''shifting'']).
                  sublist w lc);
        pc = (sublist (units ''pc'') lc
              \<or> (\<exists>p m q. lc = p @ units ''build'' @ m @ units ''computer'' @ q
                    \<and> (\<forall>c\<in>set m. c \<notin> {0x0A, 0x0D, 0x2028, 0x2029}))
              \<or> (\<exists>p m q. lc = p @ units ''gaming'' @ m @ units ''rig'' @ q
                    \<and> (\<forall>c\<in>set m. c \<notin> {0x0A, 0x0D, 0x2028, 0x2029}))
              \<or> sublist (units ''components'') lc \<or> sublist (units ''parts'') lc);
        travel = (\<exists>w\<in>set (map units [''travel'', ''trip'', ''itinerary'', ''flight'', ''hotel'']).
                  sublist w lc);
        fitness = (\<exists>w\<in>set (map units [''fitness'', ''workout'', ''diet'', ''health'', ''gym'']).
                  sublist w lc)
    in inferDomain other ctx =
         (if exam then Exam else if moving then Moving else if pc then Pc
          else if travel then Travel else if fitness then Fitness else Generic))
   \<and> ((\<exists>u v. sublist u ctx \<and> (\<forall>c\<in>set u. c < 0x80) \<and> toLowerCase other u \<in> set exam_words
              \<and> sublist v ctx \<and> (\<forall>c\<in>set v. c < 0x80) \<and> toLowerCase other v \<in> set travel_words)
        \<longrightarrow> inferDomain other ctx = Exam)
   \<and> ((\<forall>c\<in>set ctx. is_space c) \<longrightarrow> inferDomain other ctx = Generic)
   \<and> inferDomain other (units ''PAC'' @ [0x212A] @ units '' boxes'') = Moving
   \<and> inferDomain other (units ''build'' @ [0x2028] @ units ''computer'') = Generic"
proof (intro conjI impI)
  have pc: "test_pc lc \<longleftrightarrow>
      (sublist (units ''pc'') lc
       \<or> (\<exists>p m q. lc = p @ units ''build'' @ m @ units ''computer'' @ q
             \<and> (\<forall>c\<in>set m. c \<notin> {0x0A, 0x0D, 0x2028, 0x2029}))
       \<or> (\<exists>p m q. lc = p @ units ''gaming'' @ m @ units ''rig'' @ q
             \<and> (\<forall>c\<in>set m. c \<notin> {0x0A, 0x0D, 0x2028, 0x2029}))
       \<or> sublist (units ''components'') lc \<or> sublist (units ''parts'') lc)" for lc
  proof -
    have c: "\<forall>c\<in>set (units ''computer''). \<not> line_terminator c"
      by (simp add: line_terminator_def units_def)
    have r: "\<forall>c\<in>set (units ''rig''). \<not> line_terminator c"
      by (simp add: line_terminator_def units_def)
    have l: "\<not> line_terminator c \<longleftrightarrow> c \<notin> {0x0A, 0x0D, 0x2028, 0x2029}" for c
      by (simp add: line_terminator_def)
    show ?thesis
      unfolding test_pc_def contains_sublist contains_then_iff [OF c] contains_then_iff [OF r] l
      by (rule refl)
  qed
  show "let lc = toLowerCase other ctx;
        exam = (\<exists>w\<in>set (map units [''exam'', ''study'', ''college'', ''test'', ''syllabus'']).
                  sublist w lc);
        moving = (\<exists>w\<in>set (map units [''move'', ''relocat'', ''apartment'', ''pack'', ''shifting'']).
                  sublist w lc);
        pc = (sublist (units ''pc'') lc
              \<or> (\<exists>p m q. lc = p @ units ''build'' @ m @ units ''computer'' @ q
                    \<and> (\<forall>c\<in>set m. c \<notin> {0x0A, 0x0D, 0x2028, 0x2029}))
              \<or> (\<exists>p m q. lc = p @ units ''gaming'' @ m @ units ''rig'' @ q
                    \<and> (\<forall>c\<in>set m. c \<notin> {0x0A, 0x0D, 0x2028, 0x2029}))
              \<or> sublist (units ''components'') lc \<or> sublist (units ''parts'') lc);
        travel = (\<exists>w\<in>set (map units [''travel'', ''trip'', ''itinerary'', ''flight'', ''hotel'']).
                  sublist w lc);
        fitness = (\<exists>w\<in>set (map units [''fitness'', ''workout'', ''diet'', ''health'', ''gym'']).
                  sublist w lc)
    in inferDomain other ctx =
         (if exam then Exam else if moving then Moving else if pc then Pc
          else if travel then Travel else if fitness then Fitness else Generic)"
    unfolding Let_def inferDomain_def test_any_iff pc
      exam_words_def moving_words_def travel_words_def fitness_words_def
    by (rule refl)
next
  assume "\<exists>u v. sublist u ctx \<and> (\<forall>c\<in>set u. c < 0x80) \<and> toLowerCase other u \<in> set exam_words
              \<and> sublist v ctx \<and> (\<forall>c\<in>set v. c < 0x80) \<and> toLowerCase other v \<in> set travel_words"
  then obtain u where u: "sublist u ctx" "\<forall>c\<in>set u. c < 0x80"
      "toLowerCase other u \<in> set exam_words"
    by blast
  from u(2) have "\<forall>c\<in>set u. fixed_lower c \<noteq> None"
    by (simp add: fixed_lower_ascii)
  with u(1) have "sublist (toLowerCase other u) (toLowerCase other ctx)"
    by (rule toLowerCase_sublist)
  with u(3) have "test_any exam_words (toLowerCase other ctx)"
    unfolding test_any_iff by blast
  then show "inferDomain other ctx = Exam"
    by (simp add: inferDomain_def)
next
  assume blank: "\<forall>c\<in>set ctx. is_space c"
  have lc: "toLowerCase other ctx = ctx"
    using blank by (rule blank_toLowerCase)
  have none: "\<not> sublist w ctx" if "w \<noteq> []" "\<not> is_space (hd w)" for w
    using blank that by (rule blank_no_word)
  have e: "\<not> test_any exam_words ctx"
    unfolding test_any_iff exam_words_def by (simp add: none is_space_def units_def)
  have m: "\<not> test_any moving_words ctx"
    unfolding test_any_iff moving_words_def by (simp add: none is_space_def units_def)
  have t: "\<not> test_any travel_words ctx"
    unfolding test_any_iff travel_words_def by (simp add: none is_space_def units_def)
  have f: "\<not> test_any fitness_words ctx"
    unfolding test_any_iff fitness_words_def by (simp add: none is_space_def units_def)
  have c: "\<forall>c\<in>set (units ''computer''). \<not> line_terminator c"
    by (simp add: line_terminator_def units_def)
  have r: "\<forall>c\<in>set (units ''rig''). \<not> line_terminator c"
    by (simp add: line_terminator_def units_def)
  have b: "ctx \<noteq> p @ units ''build'' @ m @ units ''computer'' @ q" for p m q
    using blank by (rule blank_no_pair) (simp_all add: is_space_def units_def)
  have g: "ctx \<noteq> p @ units ''gaming'' @ m @ units ''rig'' @ q" for p m q
    using blank by (rule blank_no_pair) (simp_all add: is_space_def units_def)
  have n1: "\<not> sublist (units ''pc'') ctx"
    by (rule none) (simp_all add: is_space_def units_def)
  have n2: "\<not> sublist (units ''components'') ctx"
    by (rule none) (simp_all add: is_space_def units_def)
  have n3: "\<not> sublist (units ''parts'') ctx"
    by (rule none) (simp_all add: is_space_def units_def)
  have p: "\<not> test_pc ctx"
    unfolding test_pc_def contains_sublist contains_then_iff [OF c] contains_then_iff [OF r]
    using b g n1 n2 n3 by blast
  show "inferDomain other ctx = Generic"
    by (simp add: inferDomain_def lc e m t f p)
next
  have "toLowerCase other (units ''PAC'' @ [0x212A] @ units '' boxes'') = units ''pack boxes''"
    by (subst toLowerCase_fixed) (simp_all add: units_def fixed_lower_def is_space_def)
  then show "inferDomain other (units ''PAC'' @ [0x212A] @ units '' boxes'') = Moving"
    by (simp add: inferDomain_def test_any_def exam_words_def moving_words_def units_def)
next
  have "toLowerCase other (units ''build'' @ [0x2028] @ units ''computer'') =
      units ''build'' @ [0x2028] @ units ''computer''"
    by (subst toLowerCase_fixed) (simp_all add: units_def fixed_lower_def is_space_def)
  then show "inferDomain other (units ''build'' @ [0x2028] @ units ''computer'') = Generic"
    by (simp add: inferDomain_def test_any_def test_pc_def exam_words_def moving_words_def
        travel_words_def fitness_words_def units_def line_terminator_def)
qed

theorem inferDomain_priority_witness:
  "inferDomain other1 (units ''Book a trip after the EXAM'') = Exam
   \<and> inferDomain other1 [0x20, 0xA0, 0x3000] = Generic
   \<and> inferDomain other1 [] = Generic
   \<and> inferDomain other1 (units ''pack my PC parts for the flight'') = Moving"
proof (intro conjI)
  have "sublist (units ''EXAM'') (units ''Book a trip after the EXAM'')"
    by (simp add: contains_sublist [symmetric] units_def)
  moreover have "\<forall>c\<in>set (units ''EXAM''). c < 0x80"
    by (simp add: units_def)
  moreover have "toLowerCase other1 (units ''EXAM'') \<in> set exam_words"
    by (subst toLowerCase_fixed) (simp_all add: units_def fixed_lower_def exam_words_def)
  moreover have "sublist (units ''trip'') (units ''Book a trip after the EXAM'')"
    by (simp add: contains_sublist [symmetric] units_def)
  moreover have "\<forall>c\<in>set (units ''trip''). c < 0x80"
    by (simp add: units_def)
  moreover have "toLowerCase other1 (units ''trip'') \<in> set travel_words"
    by (subst toLowerCase_fixed) (simp_all add: units_def fixed_lower_def travel_words_def)
  ultimately have "\<exists>u v. sublist u (units ''Book a trip after the EXAM'')
      \<and> (\<forall>c\<in>set u. c < 0x80) \<and> toLowerCase other1 u \<in> set exam_words
      \<and> sublist v (units ''Book a trip after the EXAM'')
      \<and> (\<forall>c\<in>set v. c < 0x80) \<and> toLowerCase other1 v \<in> set travel_words"
    by (intro exI conjI)
  then show "inferDomain other1 (units ''Book a trip after the EXAM'') = Exam"
    by (rule inferDomain_priority [THEN conjunct2, THEN conjunct1, THEN mp])
next
  have "\<forall>c\<in>set [0x20, 0xA0, 0x3000]. is_space c"
    by (simp add: is_space_def)
  then show "inferDomain other1 [0x20, 0xA0, 0x3000] = Generic"
    by (rule inferDomain_priority [THEN conjunct2, THEN conjunct2, THEN conjunct1, THEN mp])
next
  have "\<forall>c\<in>set []. is_space c"
    by simp
  then show "inferDomain other1 [] = Generic"
    by (rule inferDomain_priority [THEN conjunct2, THEN conjunct2, THEN conjunct1, THEN mp])
next
  have lc: "toLowerCase other1 (units ''pack my PC parts for the flight'') =
      units ''pack my pc parts for the flight''"
    by (subst toLowerCase_fixed) (simp_all add: units_def fixed_lower_def)
  have no: "\<not> (\<exists>w\<in>set (map units [''exam'', ''study'', ''college'', ''test'', ''syllabus'']).
              sublist w (units ''pack my pc parts for the flight''))"
    by (simp add: contains_sublist [symmetric] units_def)
  have yes: "\<exists>w\<in>set (map units [''move'', ''relocat'', ''apartment'', ''pack'', ''shifting'']).
              sublist w (units ''pack my pc parts for the flight'')"
    by (simp add: contains_sublist [symmetric] units_def)
  from inferDomain_priority [of other1 "units ''pack my PC parts for the flight''",
      THEN conjunct1, unfolded Let_def lc]
  show "inferDomain other1 (units ''pack my PC parts for the flight'') = Moving"
    by (simp only: no yes if_True if_False)
qed

section \<open>Properties of the synthesizer\<close>

lemma space_not_digit: "is_space c \<Longrightarrow> \<not> is_digit c"
  by (auto simp: is_space_def is_digit_def)

lemma task_head: "units ''task'' = 0x74 # units ''ask''"
  by (simp add: units_def)

lemma t_not_digit: "\<not> is_digit 0x74"
  by (simp add: is_digit_def)

lemma t_not_space: "\<not> is_space 0x74"
  by (simp add: is_space_def)

lemma task_match_at_occurrence:
  assumes "task_match_at s = Some ds"
  shows "task_occurrence s ds"
proof -
  let ?r = "dropWhile is_digit s"
  from assms have ds: "ds = takeWhile is_digit s" and ne: "ds \<noteq> []"
    and st: "starts_with (units ''task'') (dropWhile is_space ?r)"
    by (auto simp: task_match_at_def Let_def split: if_splits)
  from st obtain rest where rest: "dropWhile is_space ?r = units ''task'' @ rest"
    unfolding starts_with_prefix by (auto simp: prefix_def)
  have "s = takeWhile is_digit s @ ?r" by simp
  also have "?r = takeWhile is_space ?r @ dropWhile is_space ?r" by simp
  finally have "s = ds @ takeWhile is_space ?r @ units ''task'' @ rest"
    by (simp only: ds rest)
  moreover have "\<forall>c\<in>set (takeWhile is_space ?r). is_space c"
    by (auto dest: set_takeWhileD)
  moreover have "\<forall>c\<in>set ds. is_digit c"
    unfolding ds by (auto dest: set_takeWhileD)
  ultimately show ?thesis
    unfolding task_occurrence_def using ne by blast
qed

lemma occurrence_task_match_at:
  assumes "task_occurrence s ds"
  shows "task_match_at s = Some ds"
proof -
  from assms obtain ws rest where ne: "ds \<noteq> []" and dig: "\<forall>c\<in>set ds. is_digit c"
    and sp: "\<forall>c\<in>set ws. is_space c" and s: "s = ds @ ws @ units ''task'' @ rest"
    unfolding task_occurrence_def by blast
  have tail: "ws @ units ''task'' @ rest \<noteq> [] \<and> \<not> is_digit (hd (ws @ units ''task'' @ rest))"
    using sp by (cases ws) (simp_all add: t_not_digit space_not_digit task_head)
  have tw: "takeWhile is_digit (ws @ units ''task'' @ rest) = []"
    using tail by (simp only: takeWhile_eq_Nil_iff) simp
  have dw: "dropWhile is_digit (ws @ units ''task'' @ rest) = ws @ units ''task'' @ rest"
    using tail by (simp only: dropWhile_eq_self_iff) simp
  have 1: "takeWhile is_digit s = ds"
    unfolding s using dig tw by simp
  have 2: "dropWhile is_digit s = ws @ units ''task'' @ rest"
    unfolding s using dig dw by simp
  have 3: "dropWhile is_space (ws @ units ''task'' @ rest) = units ''task'' @ rest"
    using sp by (simp add: t_not_space task_head)
  show ?thesis
    unfolding task_match_at_def Let_def 1 2 3 using ne by (simp add: starts_with_prefix)
qed

lemma task_match_at_iff: "task_match_at s = Some ds \<longleftrightarrow> task_occurrence s ds"
  using task_match_at_occurrence occurrence_task_match_at by blast

lemma task_match_at_None_iff: "task_match_at s = None \<longleftrightarrow> (\<forall>d. \<not> task_occurrence s d)"
  by (metis task_match_at_iff not_Some_eq)

lemma task_match_Some_iff:
  "task_match s = Some ds \<longleftrightarrow>
     (\<exists>k. task_match_at (drop k s) = Some ds \<and> (\<forall>j<k. task_match_at (drop j s) = None))"
proof (induction s)
  case Nil
  show ?case by (simp add: task_match_at_def)
next
  case (Cons c t)
  show ?case
  proof (cases "task_match_at (c # t)")
    case (Some d)
    have "(\<exists>k. task_match_at (drop k (c # t)) = Some ds
             \<and> (\<forall>j<k. task_match_at (drop j (c # t)) = None)) \<longleftrightarrow> d = ds"
    proof
      assume "\<exists>k. task_match_at (drop k (c # t)) = Some ds
             \<and> (\<forall>j<k. task_match_at (drop j (c # t)) = None)"
      then obtain k where k: "task_match_at (drop k (c # t)) = Some ds"
        "\<forall>j<k. task_match_at (drop j (c # t)) = None" by blast
      have "k = 0"
      proof (rule ccontr)
        assume "k \<noteq> 0"
        then have "0 < k" by simp
        with k(2) have "task_match_at (drop 0 (c # t)) = None" by blast
        with Some show False by simp
      qed
      with k(1) Some show "d = ds" by simp
    next
      assume "d = ds"
      with Some have "task_match_at (drop 0 (c # t)) = Some ds
          \<and> (\<forall>j<0. task_match_at (drop j (c # t)) = None)" by simp
      then show "\<exists>k. task_match_at (drop k (c # t)) = Some ds
             \<and> (\<forall>j<k. task_match_at (drop j (c # t)) = None)" by blast
    qed
    with Some show ?thesis by simp
  next
    case None
    have "(\<exists>k. task_match_at (drop k (c # t)) = Some ds
             \<and> (\<forall>j<k. task_match_at (drop j (c # t)) = None))
          \<longleftrightarrow> (\<exists>k. task_match_at (drop k t) = Some ds
             \<and> (\<forall>j<k. task_match_at (drop j t) = None))"
    proof
      assume "\<exists>k. task_match_at (drop k (c # t)) = Some ds
             \<and> (\<forall>j<k. task_match_at (drop j (c # t)) = None)"
      then obtain k where k: "task_match_at (drop k (c # t)) = Some ds"
        "\<forall>j<k. task_match_at (drop j (c # t)) = None" by blast
      from k(1) None obtain k' where k': "k = Suc k'"
        by (cases k) simp_all
      from k(1) have a: "task_match_at (drop k' t) = Some ds"
        by (simp add: k')
      have b: "\<forall>j<k'. task_match_at (drop j t) = None"
      proof (intro allI impI)
        fix j assume "j < k'"
        then have "Suc j < k" by (simp add: k')
        with k(2) have "task_match_at (drop (Suc j) (c # t)) = None" by blast
        then show "task_match_at (drop j t) = None" by simp
      qed
      from a b show "\<exists>k. task_match_at (drop k t) = Some ds
             \<and> (\<forall>j<k. task_match_at (drop j t) = None)" by blast
    next
      assume "\<exists>k. task_match_at (drop k t) = Some ds
             \<and> (\<forall>j<k. task_match_at (drop j t) = None)"
      then obtain k where k: "task_match_at (drop k t) = Some ds"
        "\<forall>j<k. task_match_at (drop j t) = None" by blast
      have a: "task_match_at (drop (Suc k) (c # t)) = Some ds"
        using k(1) by simp
      have b: "\<forall>j<Suc k. task_match_at (drop j (c # t)) = None"
      proof (intro allI impI)
        fix j assume j: "j < Suc k"
        show "task_match_at (drop j (c # t)) = None"
        proof (cases j)
          case 0
          with None show ?thesis by simp
        next
          case (Suc j')
          with j k(2) show ?thesis by simp
        qed
      qed
      from a b show "\<exists>k. task_match_at (drop k (c # t)) = Some ds
             \<and> (\<forall>j<k. task_match_at (drop j (c # t)) = None)" by blast
    qed
    with None Cons.IH show ?thesis by simp
  qed
qed

lemma task_match_None_iff:
  "task_match s = None \<longleftrightarrow> (\<forall>k. task_match_at (drop k s) = None)"
proof (induction s)
  case Nil
  show ?case by simp
next
  case (Cons c t)
  show ?case
  proof (cases "task_match_at (c # t)")
    case (Some d)
    have "\<not> (\<forall>k. task_match_at (drop k (c # t)) = None)"
    proof
      assume "\<forall>k. task_match_at (drop k (c # t)) = None"
      then have "task_match_at (drop 0 (c # t)) = None" by (rule spec)
      with Some show False by simp
    qed
    with Some show ?thesis by simp
  next
    case None
    have "(\<forall>k. task_match_at (drop k (c # t)) = None) \<longleftrightarrow> (\<forall>k. task_match_at (drop k t) = None)"
    proof
      assume a: "\<forall>k. task_match_at (drop k (c # t)) = None"
      show "\<forall>k. task_match_at (drop k t) = None"
      proof
        fix k from a have "task_match_at (drop (Suc k) (c # t)) = None" by blast
        then show "task_match_at (drop k t) = None" by simp
      qed
    next
      assume a: "\<forall>k. task_match_at (drop k t) = None"
      show "\<forall>k. task_match_at (drop k (c # t)) = None"
      proof
        fix k show "task_match_at (drop k (c # t)) = None"
          using None a by (cases k) simp_all
      qed
    qed
    with None Cons.IH show ?thesis by simp
  qed
qed

lemma length_base: "length base = 5"
  by (simp add: base_def)

lemma desired_bounds: "3 \<le> desired ctx 5 \<and> desired ctx 5 \<le> 5"
  by (simp add: desired_def split: option.split)

lemma length_generateTasks: "length (generateTasks other uid ctx) = desired ctx 5"
  using desired_bounds [of ctx] by (simp add: generateTasks_def Let_def length_base)

lemma generateTasks_take:
  "generateTasks other uid ctx = take (desired ctx 5) (all_tasks uid (inferDomain other ctx))"
  by (simp add: generateTasks_def all_tasks_def Let_def length_base)

lemma all_tasks_names:
  "map name (all_tasks uid d) =
     [''Research essentials'', ''Draft a plan'', ''List resources & tools'',
      ''Execute first milestone'', ''Review & next steps'']"
  by (simp add: all_tasks_def base_def)

lemma all_tasks_descriptions:
  "map description (all_tasks uid d) =
     map (domainHints d) [Research, Plan, Resources, Execute, Review]"
  by (simp add: all_tasks_def base_def)

lemma upt_five: "[0..<5] = [0, Suc 0, Suc (Suc 0), Suc (Suc (Suc 0)), Suc (Suc (Suc (Suc 0)))]"
  by (simp add: numeral_eq_Suc)

lemma all_tasks_timeframes:
  "map timeframe (all_tasks uid d) =
     map (\<lambda>i. pickTimeframe (i + (if d = Generic then 1 else 0))) [0..<5]"
  by (simp add: all_tasks_def base_def upt_five)

lemma take_map_upt:
  assumes "n \<le> m"
  shows "take n (map f [0..<m]) = map f [0..<n]"
  using assms by (simp add: take_map min_def)

text \<open>
  Claim C1. \<open>synthesize\<close> is \<open>generateTasks\<close>. For every input the list it returns has
  between three and five tasks, and these are the first tasks of the fixed role order
  research, plan, resources, execute, review: their names are the front of the list of the
  five display names and their descriptions the front of the list of the five hints of the
  domain, in that order, with nothing skipped. Every task carries the identifier drawn for
  its position and is not completed.
\<close>

theorem generateTasks_prefix:
  "3 \<le> length (generateTasks other uid ctx) \<and> length (generateTasks other uid ctx) \<le> 5
   \<and> map name (generateTasks other uid ctx) =
       take (length (generateTasks other uid ctx))
         [''Research essentials'', ''Draft a plan'', ''List resources & tools'',
          ''Execute first milestone'', ''Review & next steps'']
   \<and> map description (generateTasks other uid ctx) =
       take (length (generateTasks other uid ctx))
         (map (domainHints (inferDomain other ctx)) [Research, Plan, Resources, Execute, Review])
   \<and> map task_id (generateTasks other uid ctx) = map uid [0..<length (generateTasks other uid ctx)]
   \<and> map completed (generateTasks other uid ctx) = replicate (length (generateTasks other uid ctx)) False"
proof -
  have len: "length (generateTasks other uid ctx) = desired ctx 5"
    by (rule length_generateTasks)
  have b: "3 \<le> desired ctx 5" "desired ctx 5 \<le> 5"
    using desired_bounds [of ctx] by simp_all
  have n: "map name (generateTasks other uid ctx) =
       take (desired ctx 5)
         [''Research essentials'', ''Draft a plan'', ''List resources & tools'',
          ''Execute first milestone'', ''Review & next steps'']"
    by (simp only: generateTasks_take take_map [symmetric] all_tasks_names)
  have d: "map description (generateTasks other uid ctx) =
       take (desired ctx 5)
         (map (domainHints (inferDomain other ctx)) [Research, Plan, Resources, Execute, Review])"
    by (simp only: generateTasks_take take_map [symmetric] all_tasks_descriptions)
  have "map task_id (all_tasks uid (inferDomain other ctx)) = map uid [0..<5]"
    by (simp add: all_tasks_def base_def upt_five)
  then have "map task_id (generateTasks other uid ctx) = take (desired ctx 5) (map uid [0..<5])"
    by (simp only: generateTasks_take take_map [symmetric])
  then have i: "map task_id (generateTasks other uid ctx) = map uid [0..<desired ctx 5]"
    using b(2) by (simp only: take_map_upt)
  have "map completed (all_tasks uid (inferDomain other ctx)) = replicate 5 False"
    by (simp add: all_tasks_def base_def numeral_eq_Suc)
  then have "map completed (generateTasks other uid ctx) = take (desired ctx 5) (replicate 5 False)"
    by (simp only: generateTasks_take take_map [symmetric])
  then have c: "map completed (generateTasks other uid ctx) = replicate (desired ctx 5) False"
    using b(2) by (simp add: min_def)
  from b n d i c show ?thesis
    unfolding len by blast
qed

lemmas count_eval =
  desired_def task_match_at_def Let_def is_digit_def is_space_def parseInt_def digit_value_def
  units_def

text \<open>
  Claim C3. The desired count of \<open>generateTasks\<close> comes from the first place of the input,
  scanning from the left, where a non-empty run of digits, then white space (possibly
  none), then the literal \<open>task\<close> begins; the text is matched as given, so that \<open>Tasks\<close>
  is not \<open>task\<close>. The run of digits is read as a decimal number and clamped into the range
  from 3 to 5: a request for 0 or 1 tasks gives 3, a request for 10 tasks gives 5. Later
  occurrences are ignored. Without an occurrence the count is 5, the whole role list. The
  list returned is the front of the five tasks of that length. White space is all the
  white space of \<^verbatim>\<open>\s\<close>: a no-break space between \<open>4\<close> and \<open>tasks\<close> gives 4.
\<close>

theorem desired_first_occurrence_clamped:
  "(task_match ctx = None \<longleftrightarrow> (\<forall>k d. \<not> task_occurrence (drop k ctx) d))
   \<and> (\<forall>ds. task_match ctx = Some ds \<longleftrightarrow>
          (\<exists>k. task_occurrence (drop k ctx) ds
             \<and> (\<forall>j<k. \<forall>d. \<not> task_occurrence (drop j ctx) d)))
   \<and> (task_match ctx = None \<longrightarrow> desired ctx 5 = 5)
   \<and> (\<forall>ds. task_match ctx = Some ds \<longrightarrow> desired ctx 5 = min 5 (max 3 (parseInt ds)))
   \<and> 3 \<le> desired ctx 5 \<and> desired ctx 5 \<le> 5
   \<and> generateTasks other uid ctx = take (desired ctx 5) (all_tasks uid (inferDomain other ctx))
   \<and> length (generateTasks other uid ctx) = desired ctx 5
   \<and> desired (units ''0 tasks'') 5 = 3 \<and> desired (units ''1 task'') 5 = 3 \<and> desired (units ''10 tasks'') 5 = 5
   \<and> desired (units ''4 Tasks'') 5 = 5 \<and> desired (units ''4 tasks, not 5 tasks'') 5 = 4
   \<and> desired (units ''4'' @ [0xA0] @ units ''tasks'') 5 = 4"
proof -
  have none: "task_match ctx = None \<longleftrightarrow> (\<forall>k d. \<not> task_occurrence (drop k ctx) d)"
    by (simp only: task_match_None_iff task_match_at_None_iff)
  have some: "\<forall>ds. task_match ctx = Some ds \<longleftrightarrow>
          (\<exists>k. task_occurrence (drop k ctx) ds
             \<and> (\<forall>j<k. \<forall>d. \<not> task_occurrence (drop j ctx) d))"
    by (simp only: task_match_Some_iff task_match_at_None_iff task_match_at_iff) simp
  have d0: "task_match ctx = None \<longrightarrow> desired ctx 5 = 5"
    by (simp add: desired_def)
  have d1: "\<forall>ds. task_match ctx = Some ds \<longrightarrow> desired ctx 5 = min 5 (max 3 (parseInt ds))"
    by (simp add: desired_def)
  have b: "3 \<le> desired ctx 5 \<and> desired ctx 5 \<le> 5"
    by (rule desired_bounds)
  have g: "generateTasks other uid ctx = take (desired ctx 5) (all_tasks uid (inferDomain other ctx))"
    by (rule generateTasks_take)
  have l: "length (generateTasks other uid ctx) = desired ctx 5"
    by (rule length_generateTasks)
  have e1: "desired (units ''0 tasks'') 5 = 3" by (simp add: count_eval)
  have e2: "desired (units ''1 task'') 5 = 3" by (simp add: count_eval)
  have e3: "desired (units ''10 tasks'') 5 = 5" by (simp add: count_eval)
  have e4: "desired (units ''4 Tasks'') 5 = 5" by (simp add: count_eval)
  have e5: "desired (units ''4 tasks, not 5 tasks'') 5 = 4" by (simp add: count_eval)
  have e6: "desired (units ''4'' @ [0xA0] @ units ''tasks'') 5 = 4" by (simp add: count_eval)
  from none some d0 d1 b g l e1 e2 e3 e4 e5 e6 show ?thesis
    by (intro conjI) simp_all
qed

theorem desired_first_occurrence_clamped_witness:
  "desired (units ''make 4 tasks, not 5 tasks'') 5 = 4
   \<and> (\<exists>k. task_occurrence (drop k (units ''make 4 tasks, not 5 tasks'')) (units ''4''))
   \<and> desired (units ''no number here'') 5 = 5"
proof (intro conjI)
  have m: "task_match (units ''make 4 tasks, not 5 tasks'') = Some (units ''4'')"
    by (simp add: count_eval)
  have p: "parseInt (units ''4'') = 4"
    by (simp add: parseInt_def digit_value_def units_def)
  note t = desired_first_occurrence_clamped
    [where ctx = "units ''make 4 tasks, not 5 tasks''" and other = other1 and uid = uid1]
  from t have "\<forall>ds. task_match (units ''make 4 tasks, not 5 tasks'') = Some ds \<longrightarrow>
      desired (units ''make 4 tasks, not 5 tasks'') 5 = min 5 (max 3 (parseInt ds))"
    by (elim conjE)
  with m have "desired (units ''make 4 tasks, not 5 tasks'') 5 = min 5 (max 3 (parseInt (units ''4'')))"
    by blast
  then show "desired (units ''make 4 tasks, not 5 tasks'') 5 = 4"
    by (simp add: p)
  from t have "\<forall>ds. task_match (units ''make 4 tasks, not 5 tasks'') = Some ds \<longleftrightarrow>
          (\<exists>k. task_occurrence (drop k (units ''make 4 tasks, not 5 tasks'')) ds
             \<and> (\<forall>j<k. \<forall>d. \<not> task_occurrence (drop j (units ''make 4 tasks, not 5 tasks'')) d))"
    by (elim conjE)
  with m show "\<exists>k. task_occurrence (drop k (units ''make 4 tasks, not 5 tasks'')) (units ''4'')"
    by blast
next
  have m: "task_match (units ''no number here'') = None"
    by (simp add: count_eval)
  from desired_first_occurrence_clamped
    [where ctx = "units ''no number here''" and other = other1 and uid = uid1]
  have "task_match (units ''no number here'') = None \<longrightarrow> desired (units ''no number here'') 5 = 5"
    by (elim conjE)
  with m show "desired (units ''no number here'') 5 = 5"
    by (rule rev_mp)
qed

lemma timeframes_of_generateTasks:
  "map timeframe (generateTasks other uid ctx) =
     map (\<lambda>i. pickTimeframe (i + (if inferDomain other ctx = Generic then 1 else 0)))
       [0..<length (generateTasks other uid ctx)]"
proof -
  let ?f = "\<lambda>i. pickTimeframe (i + (if inferDomain other ctx = Generic then 1 else 0))"
  have le: "desired ctx 5 \<le> 5"
    using desired_bounds [of ctx] by simp
  have "map timeframe (generateTasks other uid ctx) =
      take (desired ctx 5) (map timeframe (all_tasks uid (inferDomain other ctx)))"
    by (simp only: generateTasks_take take_map)
  also have "\<dots> = take (desired ctx 5) (map ?f [0..<5])"
    by (simp only: all_tasks_timeframes)
  also have "\<dots> = map ?f [0..<desired ctx 5]"
    using le by (rule take_map_upt)
  finally show ?thesis
    by (simp only: length_generateTasks)
qed

lemma babble_domain: "inferDomain other (units ''random babble, 1 task'') = Generic"
proof -
  have "toLowerCase other (units ''random babble, 1 task'') = units ''random babble, 1 task''"
    by (subst toLowerCase_fixed) (simp_all add: units_def fixed_lower_def)
  then show ?thesis
    by (simp add: inferDomain_def test_any_def test_pc_def exam_words_def moving_words_def
        travel_words_def fitness_words_def line_terminator_def units_def)
qed

lemma babble_desired: "desired (units ''random babble, 1 task'') 5 = 3"
  by (simp add: count_eval)

lemma exam_domain: "inferDomain other (units ''I need to prepare for an exam, make 4 tasks'') = Exam"
proof -
  have "toLowerCase other (units ''I need to prepare for an exam, make 4 tasks'') =
      units ''i need to prepare for an exam, make 4 tasks''"
    by (subst toLowerCase_fixed) (simp_all add: units_def fixed_lower_def)
  then show ?thesis
    by (simp add: inferDomain_def test_any_def exam_words_def units_def)
qed

lemma task_match_at_nondigit: "\<not> is_digit c \<Longrightarrow> task_match_at (c # s) = None"
  by (simp add: task_match_at_def)

lemma task_match_skip:
  assumes "\<forall>c\<in>set pre. \<not> is_digit c"
  shows "task_match (pre @ s) = task_match s"
  using assms by (induction pre) (simp_all add: task_match_at_nondigit)

lemma exam_desired: "desired (units ''I need to prepare for an exam, make 4 tasks'') 5 = 4"
proof -
  have a: "(units ''I need to prepare for an exam, make 4 tasks'') =
      (units ''I need to prepare for an exam, make '') @ (units ''4 tasks'')"
    by (simp add: units_def)
  have b: "task_match ((units ''I need to prepare for an exam, make '') @ (units ''4 tasks'')) =
      task_match (units ''4 tasks'')"
    by (rule task_match_skip) (simp add: is_digit_def units_def)
  have c: "task_match (units ''4 tasks'') = Some (units ''4'')"
    by (simp add: count_eval)
  have d: "parseInt (units ''4'') = 4"
    by (simp add: parseInt_def digit_value_def units_def)
  have "task_match (units ''I need to prepare for an exam, make 4 tasks'') = Some (units ''4'')"
    by (subst a, subst b, rule c)
  then show ?thesis
    by (simp add: desired_def d)
qed

text \<open>
  Claim C4. In the list \<open>generateTasks\<close> returns, the task of role index \<open>i\<close> has the
  timeframe \<open>pickTimeframe (i + 1)\<close> when the domain of the input is generic and
  \<open>pickTimeframe i\<close> for every other domain. The input \<open>random babble, 1 task\<close> is generic
  and gives three tasks with the labels 1, 2 and 3 of the cycle; the input
  \<open>I need to prepare for an exam, make 4 tasks\<close> is of the exam domain and gives the four
  tasks of the roles research, plan, resources, execute with the exam hints and the labels
  0 to 3 of the cycle.
\<close>

theorem generateTasks_timeframe_offset:
  "(inferDomain other ctx = Generic \<longrightarrow>
      map timeframe (generateTasks other uid ctx) =
        map (\<lambda>i. pickTimeframe (i + 1)) [0..<length (generateTasks other uid ctx)])
   \<and> (inferDomain other ctx \<noteq> Generic \<longrightarrow>
      map timeframe (generateTasks other uid ctx) =
        map (\<lambda>i. pickTimeframe i) [0..<length (generateTasks other uid ctx)])
   \<and> inferDomain other (units ''random babble, 1 task'') = Generic
   \<and> length (generateTasks other uid (units ''random babble, 1 task'')) = 3
   \<and> map timeframe (generateTasks other uid (units ''random babble, 1 task'')) =
       [DEFAULT_TIMEFRAMES ! 1, DEFAULT_TIMEFRAMES ! 2, DEFAULT_TIMEFRAMES ! 3]
   \<and> inferDomain other (units ''I need to prepare for an exam, make 4 tasks'') = Exam
   \<and> generateTasks other uid (units ''I need to prepare for an exam, make 4 tasks'') =
       [\<lparr>task_id = uid 0, name = ''Research essentials'',
         description = ''Outline subjects and weightage from the syllabus.'',
         timeframe = DEFAULT_TIMEFRAMES ! 0, completed = False\<rparr>,
        \<lparr>task_id = uid 1, name = ''Draft a plan'',
         description = ''Create a 2-week timetable with daily topics.'',
         timeframe = DEFAULT_TIMEFRAMES ! 1, completed = False\<rparr>,
        \<lparr>task_id = uid 2, name = ''List resources & tools'',
         description = ''Gather notes, past papers, and flashcards.'',
         timeframe = DEFAULT_TIMEFRAMES ! 2, completed = False\<rparr>,
        \<lparr>task_id = uid 3, name = ''Execute first milestone'',
         description = ''Study the first topic and attempt 10 practice questions.'',
         timeframe = DEFAULT_TIMEFRAMES ! 3, completed = False\<rparr>]"
proof (intro conjI impI)
  assume "inferDomain other ctx = Generic"
  with timeframes_of_generateTasks [of other uid ctx]
  show "map timeframe (generateTasks other uid ctx) =
        map (\<lambda>i. pickTimeframe (i + 1)) [0..<length (generateTasks other uid ctx)]"
    by simp
next
  assume "inferDomain other ctx \<noteq> Generic"
  with timeframes_of_generateTasks [of other uid ctx]
  show "map timeframe (generateTasks other uid ctx) =
        map (\<lambda>i. pickTimeframe i) [0..<length (generateTasks other uid ctx)]"
    by simp
next
  show "inferDomain other (units ''random babble, 1 task'') = Generic"
    by (rule babble_domain)
next
  show "length (generateTasks other uid (units ''random babble, 1 task'')) = 3"
    by (simp only: length_generateTasks babble_desired)
next
  have "map timeframe (generateTasks other uid (units ''random babble, 1 task'')) =
      map (\<lambda>i. pickTimeframe (i + 1)) [0..<3]"
    by (simp add: timeframes_of_generateTasks [of other uid "units ''random babble, 1 task''"]
        length_generateTasks babble_desired babble_domain)
  also have "\<dots> = [DEFAULT_TIMEFRAMES ! 1, DEFAULT_TIMEFRAMES ! 2, DEFAULT_TIMEFRAMES ! 3]"
    by (simp add: upt_rec pickTimeframe_def DEFAULT_TIMEFRAMES_def)
  finally show "map timeframe (generateTasks other uid (units ''random babble, 1 task'')) =
       [DEFAULT_TIMEFRAMES ! 1, DEFAULT_TIMEFRAMES ! 2, DEFAULT_TIMEFRAMES ! 3]" .
next
  show "inferDomain other (units ''I need to prepare for an exam, make 4 tasks'') = Exam"
    by (rule exam_domain)
next
  have "generateTasks other uid (units ''I need to prepare for an exam, make 4 tasks'') =
      take 4 (all_tasks uid Exam)"
    by (simp only: generateTasks_take exam_domain exam_desired)
  also have "all_tasks uid Exam =
       [\<lparr>task_id = uid 0, name = ''Research essentials'',
         description = ''Outline subjects and weightage from the syllabus.'',
         timeframe = ''15 minutes'', completed = False\<rparr>,
        \<lparr>task_id = uid (Suc 0), name = ''Draft a plan'',
         description = ''Create a 2-week timetable with daily topics.'',
         timeframe = ''30 minutes'', completed = False\<rparr>,
        \<lparr>task_id = uid (Suc (Suc 0)), name = ''List resources & tools'',
         description = ''Gather notes, past papers, and flashcards.'',
         timeframe = ''1 hour'', completed = False\<rparr>,
        \<lparr>task_id = uid (Suc (Suc (Suc 0))), name = ''Execute first milestone'',
         description = ''Study the first topic and attempt 10 practice questions.'',
         timeframe = ''2 hours'', completed = False\<rparr>,
        \<lparr>task_id = uid (Suc (Suc (Suc (Suc 0)))), name = ''Review & next steps'',
         description = ''Revise mistakes and adjust timetable.'',
         timeframe = ''Half day'', completed = False\<rparr>]"
    by (simp add: all_tasks_def base_def pickTimeframe_def DEFAULT_TIMEFRAMES_def)
  also have "take 4 \<dots> =
       [\<lparr>task_id = uid 0, name = ''Research essentials'',
         description = ''Outline subjects and weightage from the syllabus.'',
         timeframe = ''15 minutes'', completed = False\<rparr>,
        \<lparr>task_id = uid (Suc 0), name = ''Draft a plan'',
         description = ''Create a 2-week timetable with daily topics.'',
         timeframe = ''30 minutes'', completed = False\<rparr>,
        \<lparr>task_id = uid (Suc (Suc 0)), name = ''List resources & tools'',
         description = ''Gather notes, past papers, and flashcards.'',
         timeframe = ''1 hour'', completed = False\<rparr>,
        \<lparr>task_id = uid (Suc (Suc (Suc 0))), name = ''Execute first milestone'',
         description = ''Study the first topic and attempt 10 practice questions.'',
         timeframe = ''2 hours'', completed = False\<rparr>]"
    by simp
  finally have tasks4: "generateTasks other uid (units ''I need to prepare for an exam, make 4 tasks'') =
       [\<lparr>task_id = uid 0, name = ''Research essentials'',
         description = ''Outline subjects and weightage from the syllabus.'',
         timeframe = ''15 minutes'', completed = False\<rparr>,
        \<lparr>task_id = uid (Suc 0), name = ''Draft a plan'',
         description = ''Create a 2-week timetable with daily topics.'',
         timeframe = ''30 minutes'', completed = False\<rparr>,
        \<lparr>task_id = uid (Suc (Suc 0)), name = ''List resources & tools'',
         description = ''Gather notes, past papers, and flashcards.'',
         timeframe = ''1 hour'', completed = False\<rparr>,
        \<lparr>task_id = uid (Suc (Suc (Suc 0))), name = ''Execute first milestone'',
         description = ''Study the first topic and attempt 10 practice questions.'',
         timeframe = ''2 hours'', completed = False\<rparr>]" .
  have u: "uid (Suc 0) = uid 1" "uid (Suc (Suc 0)) = uid 2" "uid (Suc (Suc (Suc 0))) = uid 3"
    by (simp_all add: numeral_2_eq_2 numeral_3_eq_3)
  have t: "DEFAULT_TIMEFRAMES ! 0 = ''15 minutes''" "DEFAULT_TIMEFRAMES ! 1 = ''30 minutes''"
    "DEFAULT_TIMEFRAMES ! 2 = ''1 hour''" "DEFAULT_TIMEFRAMES ! 3 = ''2 hours''"
    by (simp_all add: DEFAULT_TIMEFRAMES_def)
  show "generateTasks other uid (units ''I need to prepare for an exam, make 4 tasks'') =
       [\<lparr>task_id = uid 0, name = ''Research essentials'',
         description = ''Outline subjects and weightage from the syllabus.'',
         timeframe = DEFAULT_TIMEFRAMES ! 0, completed = False\<rparr>,
        \<lparr>task_id = uid 1, name = ''Draft a plan'',
         description = ''Create a 2-week timetable with daily topics.'',
         timeframe = DEFAULT_TIMEFRAMES ! 1, completed = False\<rparr>,
        \<lparr>task_id = uid 2, name = ''List resources & tools'',
         description = ''Gather notes, past papers, and flashcards.'',
         timeframe = DEFAULT_TIMEFRAMES ! 2, completed = False\<rparr>,
        \<lparr>task_id = uid 3, name = ''Execute first milestone'',
         description = ''Study the first topic and attempt 10 practice questions.'',
         timeframe = DEFAULT_TIMEFRAMES ! 3, completed = False\<rparr>]"
    by (simp only: tasks4 u t)
qed

theorem generateTasks_timeframe_offset_witness:
  "map timeframe (generateTasks other1 uid1 (units ''random babble, 1 task'')) =
     map (\<lambda>i. pickTimeframe (i + 1)) [0..<3]
   \<and> map timeframe (generateTasks other1 uid1 (units ''I need to prepare for an exam, make 4 tasks'')) =
     map (\<lambda>i. pickTimeframe i) [0..<4]"
proof (intro conjI)
  note t = generateTasks_timeframe_offset
    [where ctx = "units ''random babble, 1 task''" and other = other1 and uid = uid1]
  from t have "inferDomain other1 (units ''random babble, 1 task'') = Generic \<longrightarrow>
      map timeframe (generateTasks other1 uid1 (units ''random babble, 1 task'')) =
        map (\<lambda>i. pickTimeframe (i + 1)) [0..<length (generateTasks other1 uid1 (units ''random babble, 1 task''))]"
    by (elim conjE)
  with babble_domain
  have "map timeframe (generateTasks other1 uid1 (units ''random babble, 1 task'')) =
        map (\<lambda>i. pickTimeframe (i + 1)) [0..<length (generateTasks other1 uid1 (units ''random babble, 1 task''))]"
    by (rule rev_mp)
  then show "map timeframe (generateTasks other1 uid1 (units ''random babble, 1 task'')) =
     map (\<lambda>i. pickTimeframe (i + 1)) [0..<3]"
    by (simp only: length_generateTasks babble_desired)
next
  note t = generateTasks_timeframe_offset
    [where ctx = "units ''I need to prepare for an exam, make 4 tasks''" and other = other1
      and uid = uid1]
  have ne: "inferDomain other1 (units ''I need to prepare for an exam, make 4 tasks'') \<noteq> Generic"
    by (simp add: exam_domain)
  from t have "inferDomain other1 (units ''I need to prepare for an exam, make 4 tasks'') \<noteq> Generic \<longrightarrow>
      map timeframe (generateTasks other1 uid1 (units ''I need to prepare for an exam, make 4 tasks'')) =
        map (\<lambda>i. pickTimeframe i)
          [0..<length (generateTasks other1 uid1 (units ''I need to prepare for an exam, make 4 tasks''))]"
    by (elim conjE)
  with ne
  have "map timeframe (generateTasks other1 uid1 (units ''I need to prepare for an exam, make 4 tasks'')) =
        map (\<lambda>i. pickTimeframe i)
          [0..<length (generateTasks other1 uid1 (units ''I need to prepare for an exam, make 4 tasks''))]"
    by (rule rev_mp)
  then show "map timeframe (generateTasks other1 uid1 (units ''I need to prepare for an exam, make 4 tasks'')) =
     map (\<lambda>i. pickTimeframe i) [0..<4]"
    by (simp only: length_generateTasks exam_desired)
qed

section \<open>Properties of the actions\<close>

lemma parseInt_snoc: "parseInt (ds @ [c]) = 10 * parseInt ds + digit_value c"
  by (simp add: parseInt_def)

lemma units_snoc: "units (s @ [c]) = units s @ [of_char c]"
  by (simp add: units_def)

lemma digit_value_nth:
  assumes "d < 10"
  shows "digit_value (of_char (''0123456789'' ! d)) = d"
proof -
  have "\<forall>d\<in>{..<10::nat}. digit_value (of_char (''0123456789'' ! d)) = d"
    by (simp add: lessThan_nat_numeral lessThan_Suc digit_value_def)
  with assms show ?thesis by simp
qed

lemma parseInt_show_nat: "parseInt (units (show_nat n)) = n"
proof (induction n rule: show_nat.induct)
  case (1 n)
  show ?case
  proof (cases "n < 10")
    case True
    then have "show_nat n = [''0123456789'' ! n]"
      by (subst show_nat.simps) simp
    with True show ?thesis
      by (simp add: parseInt_def digit_value_nth units_def)
  next
    case False
    then have "show_nat n = show_nat (n div 10) @ [''0123456789'' ! (n mod 10)]"
      by (subst show_nat.simps) simp
    moreover have "parseInt (units (show_nat (n div 10))) = n div 10"
      using False by (rule "1.IH")
    ultimately show ?thesis
      by (simp add: units_snoc parseInt_snoc digit_value_nth)
  qed
qed

lemma show_nat_500: "show_nat 500 = ''500''"
  by (simp add: show_nat.simps)

lemma trim_empty_iff: "trim s = [] \<longleftrightarrow> (\<forall>c\<in>set s. is_space c)"
proof -
  have "trim s = [] \<longleftrightarrow> (\<forall>c\<in>set (dropWhile is_space s). is_space c)"
    by (simp add: trim_def)
  also have "\<dots> \<longleftrightarrow> dropWhile is_space s = []"
  proof
    assume a: "\<forall>c\<in>set (dropWhile is_space s). is_space c"
    show "dropWhile is_space s = []"
    proof (rule ccontr)
      assume n: "dropWhile is_space s \<noteq> []"
      then have "\<not> is_space (hd (dropWhile is_space s))" by (rule hd_dropWhile)
      moreover from n have "hd (dropWhile is_space s) \<in> set (dropWhile is_space s)" by simp
      ultimately show False using a by blast
    qed
  next
    assume e: "dropWhile is_space s = []"
    show "\<forall>c\<in>set (dropWhile is_space s). is_space c"
      unfolding e by simp
  qed
  also have "\<dots> \<longleftrightarrow> (\<forall>c\<in>set s. is_space c)"
    by simp
  finally show ?thesis .
qed

text \<open>
  Claim C9. When the context text is blank (empty or white space only, white space being
  all that \<^verbatim>\<open>trim\<close> removes), \<open>addGenerated\<close> refuses to generate: the state it returns
  is the old state with the error notice "Please enter some context first.", so the
  stored task list is the same before and after, and the result depends neither on the
  identifier source nor on the runtime's lower case, which the synthesizer would have
  read. For any other context text the list is replaced by the generated one.
\<close>

theorem addGenerated_blank_refused:
  "((\<forall>c\<in>set (contextText st). is_space c) \<longrightarrow>
      addGenerated other uid st =
        st\<lparr>notice := Some \<lparr>kind = Error, message = ''Please enter some context first.''\<rparr>\<rparr>
      \<and> tasks (addGenerated other uid st) = tasks st
      \<and> addGenerated other uid st = addGenerated other' uid' st)
   \<and> (\<not> (\<forall>c\<in>set (contextText st). is_space c) \<longrightarrow>
      tasks (addGenerated other uid st) = generateTasks other uid (trim (contextText st)))"
proof (intro conjI impI)
  assume b: "\<forall>c\<in>set (contextText st). is_space c"
  then have t: "trim (contextText st) = []"
    by (simp only: trim_empty_iff)
  show 1: "addGenerated other uid st =
        st\<lparr>notice := Some \<lparr>kind = Error, message = ''Please enter some context first.''\<rparr>\<rparr>"
    by (simp add: addGenerated_def t)
  show "tasks (addGenerated other uid st) = tasks st"
    by (simp add: addGenerated_def t)
  show "addGenerated other uid st = addGenerated other' uid' st"
    by (simp add: addGenerated_def t)
next
  assume "\<not> (\<forall>c\<in>set (contextText st). is_space c)"
  then have "trim (contextText st) \<noteq> []"
    by (simp only: trim_empty_iff) simp
  then show "tasks (addGenerated other uid st) = generateTasks other uid (trim (contextText st))"
    by (simp add: addGenerated_def Let_def)
qed

theorem addGenerated_blank_refused_witness:
  "addGenerated other1 uid1
     \<lparr>contextText = [0x20, 0xA0, 0x09], tasks = [task1], webhookUrl = [], notice = None\<rparr> =
     \<lparr>contextText = [0x20, 0xA0, 0x09], tasks = [task1], webhookUrl = [],
      notice = Some \<lparr>kind = Error, message = ''Please enter some context first.''\<rparr>\<rparr>
   \<and> length (tasks (addGenerated other1 uid1
       \<lparr>contextText = units ''go'', tasks = [task1], webhookUrl = [], notice = None\<rparr>)) = 5"
proof (intro conjI)
  let ?st = "\<lparr>contextText = [0x20, 0xA0, 0x09], tasks = [task1], webhookUrl = [], notice = None\<rparr>"
  have "\<forall>c\<in>set (contextText ?st). is_space c"
    by (simp add: is_space_def)
  with addGenerated_blank_refused [of ?st other1 uid1 other1 uid1]
  have "addGenerated other1 uid1 ?st =
      ?st\<lparr>notice := Some \<lparr>kind = Error, message = ''Please enter some context first.''\<rparr>\<rparr>"
    by blast
  then show "addGenerated other1 uid1 ?st =
     \<lparr>contextText = [0x20, 0xA0, 0x09], tasks = [task1], webhookUrl = [],
      notice = Some \<lparr>kind = Error, message = ''Please enter some context first.''\<rparr>\<rparr>"
    by simp
next
  let ?st = "\<lparr>contextText = units ''go'', tasks = [task1], webhookUrl = [], notice = None\<rparr>"
  have "\<not> (\<forall>c\<in>set (contextText ?st). is_space c)"
    by (simp add: is_space_def units_def)
  with addGenerated_blank_refused [of ?st other1 uid1 other1 uid1]
  have "tasks (addGenerated other1 uid1 ?st) =
      generateTasks other1 uid1 (trim (contextText ?st))"
    by blast
  moreover have "trim (contextText ?st) = units ''go''"
    by (simp add: trim_def is_space_def units_def)
  moreover have "desired (units ''go'') 5 = 5"
    by (simp add: count_eval)
  ultimately show "length (tasks (addGenerated other1 uid1 ?st)) = 5"
    by (simp only: length_generateTasks)
qed

text \<open>
  Claim C5. \<open>notify_completion\<close> is the part of \<open>toggleComplete\<close> that runs when the task
  was not completed before. With an empty webhook URL it stops early: no call of
  \<^verbatim>\<open>fetch\<close> is issued, whatever the task and the context, the error notice
  "No webhook URL set. Open Settings to add one." is set, and the result of the whole
  action is the same for every transport.
\<close>

theorem toggleComplete_no_webhook:
  "webhookUrl st = [] \<longrightarrow>
     snd (toggleComplete now stringify st task) = []
     \<and> (\<not> completed task \<longrightarrow>
          notice (fst (toggleComplete now stringify st task)) =
            Some \<lparr>kind = Error, message = ''No webhook URL set. Open Settings to add one.''\<rparr>)
     \<and> toggleComplete_settled fetch now stringify st task =
          (fst (toggleComplete now stringify st task), [], [])"
proof (intro impI conjI)
  assume u: "webhookUrl st = []"
  show c: "snd (toggleComplete now stringify st task) = []"
    by (simp add: toggleComplete_def Let_def u)
  show "toggleComplete_settled fetch now stringify st task =
          (fst (toggleComplete now stringify st task), [], [])"
    using c by (simp add: toggleComplete_settled_def split_beta)
  assume "\<not> completed task"
  then show "notice (fst (toggleComplete now stringify st task)) =
            Some \<lparr>kind = Error, message = ''No webhook URL set. Open Settings to add one.''\<rparr>"
    by (simp add: toggleComplete_def Let_def u)
qed

theorem toggleComplete_no_webhook_witness:
  "snd (toggleComplete ''2024-01-01T00:00:00.000Z'' (\<lambda>j. [])
      \<lparr>contextText = units ''go'', tasks = [task1, task2], webhookUrl = [], notice = None\<rparr> task1) = []
   \<and> notice (fst (toggleComplete ''2024-01-01T00:00:00.000Z'' (\<lambda>j. [])
      \<lparr>contextText = units ''go'', tasks = [task1, task2], webhookUrl = [], notice = None\<rparr> task1)) =
      Some \<lparr>kind = Error, message = ''No webhook URL set. Open Settings to add one.''\<rparr>"
proof -
  let ?st = "\<lparr>contextText = units ''go'', tasks = [task1, task2], webhookUrl = [], notice = None\<rparr>"
  have u: "webhookUrl ?st = []" by simp
  have n: "\<not> completed task1" by (simp add: task1_def)
  from toggleComplete_no_webhook
    [of ?st "''2024-01-01T00:00:00.000Z''" "\<lambda>j. []" task1 "\<lambda>r. Rejected None"] u n
  show ?thesis by blast
qed

lemma toggleComplete_calls:
  assumes "webhookUrl st \<noteq> []" "\<not> completed task"
  shows "snd (toggleComplete now stringify st task) =
      [\<lparr>url = webhookUrl st, http_method = ''POST'',
        headers = [(''Content-Type'', ''application/json'')],
        body = stringify (payload now task (contextText st))\<rparr>]"
  using assms by (simp add: toggleComplete_def Let_def)

lemma toggleComplete_settled_one:
  assumes "snd (toggleComplete now stringify st task) = [req]"
  shows "toggleComplete_settled fetch now stringify st task =
      (fst (webhook_settled (fetch req) (fst (toggleComplete now stringify st task))), [req],
       snd (webhook_settled (fetch req) (fst (toggleComplete now stringify st task))))"
  using assms by (simp add: toggleComplete_settled_def split_beta)

text \<open>
  Claim C6. With a webhook URL, completing a task issues exactly one call of \<^verbatim>\<open>fetch\<close>,
  a POST to that URL, and the answer of the transport to this call decides the notice. A
  response with a status from 200 to 299 gives the success notice; every other status gives
  an error notice with the decimal status code and the status text (500 gives
  "Webhook failed: 500 Internal Server Error"); a rejection gives an error notice with
  the message of the error, or with "Network error" when the message is missing or empty.
  The body of the response changes neither the notice nor the rest of the state.
\<close>

theorem webhook_outcome:
  "(webhookUrl st \<noteq> [] \<and> \<not> completed task \<longrightarrow>
      (\<exists>req. snd (toggleComplete now stringify st task) = [req]
         \<and> http_method req = ''POST'' \<and> url req = webhookUrl st
         \<and> toggleComplete_settled fetch now stringify st task =
             (fst (webhook_settled (fetch req) (fst (toggleComplete now stringify st task))),
              [req],
              snd (webhook_settled (fetch req) (fst (toggleComplete now stringify st task))))))
   \<and> (200 \<le> status res \<and> status res \<le> 299 \<longrightarrow>
        notice (fst (webhook_settled (Resolved res) s)) =
          Some \<lparr>kind = Success, message = ''Webhook sent successfully.''\<rparr>)
   \<and> (\<not> (200 \<le> status res \<and> status res \<le> 299) \<longrightarrow>
        notice (fst (webhook_settled (Resolved res) s)) =
          Some \<lparr>kind = Error,
                message = ''Webhook failed: '' @ show_nat (status res) @ '' '' @ statusText res\<rparr>)
   \<and> parseInt (units (show_nat (status res))) = status res
   \<and> notice (fst (webhook_settled
         (Resolved \<lparr>status = 500, statusText = ''Internal Server Error'', bodyText = b\<rparr>) s)) =
        Some \<lparr>kind = Error, message = ''Webhook failed: 500 Internal Server Error''\<rparr>
   \<and> (m \<noteq> [] \<longrightarrow>
        notice (fst (webhook_settled (Rejected (Some m)) s)) =
          Some \<lparr>kind = Error, message = ''Webhook error: '' @ m\<rparr>)
   \<and> notice (fst (webhook_settled (Rejected (Some [])) s)) =
        Some \<lparr>kind = Error, message = ''Webhook error: Network error''\<rparr>
   \<and> notice (fst (webhook_settled (Rejected None) s)) =
        Some \<lparr>kind = Error, message = ''Webhook error: Network error''\<rparr>
   \<and> fst (webhook_settled (Resolved (res\<lparr>bodyText := b\<rparr>)) s) =
        fst (webhook_settled (Resolved res) s)"
proof (intro conjI impI)
  assume a: "webhookUrl st \<noteq> [] \<and> \<not> completed task"
  let ?req = "\<lparr>url = webhookUrl st, http_method = ''POST'',
        headers = [(''Content-Type'', ''application/json'')],
        body = stringify (payload now task (contextText st))\<rparr>"
  from a have c: "snd (toggleComplete now stringify st task) = [?req]"
    by (simp add: toggleComplete_calls)
  have "http_method ?req = ''POST''" "url ?req = webhookUrl st"
    by simp_all
  with c toggleComplete_settled_one [OF c, of fetch]
  show "\<exists>req. snd (toggleComplete now stringify st task) = [req]
         \<and> http_method req = ''POST'' \<and> url req = webhookUrl st
         \<and> toggleComplete_settled fetch now stringify st task =
             (fst (webhook_settled (fetch req) (fst (toggleComplete now stringify st task))),
              [req],
              snd (webhook_settled (fetch req) (fst (toggleComplete now stringify st task))))"
    by blast
next
  assume "200 \<le> status res \<and> status res \<le> 299"
  then show "notice (fst (webhook_settled (Resolved res) s)) =
          Some \<lparr>kind = Success, message = ''Webhook sent successfully.''\<rparr>"
    by (simp add: webhook_settled_def ok_def Let_def)
next
  assume "\<not> (200 \<le> status res \<and> status res \<le> 299)"
  then show "notice (fst (webhook_settled (Resolved res) s)) =
          Some \<lparr>kind = Error,
                message = ''Webhook failed: '' @ show_nat (status res) @ '' '' @ statusText res\<rparr>"
    by (simp add: webhook_settled_def ok_def Let_def)
next
  show "parseInt (units (show_nat (status res))) = status res"
    by (rule parseInt_show_nat)
next
  show "notice (fst (webhook_settled
         (Resolved \<lparr>status = 500, statusText = ''Internal Server Error'', bodyText = b\<rparr>) s)) =
        Some \<lparr>kind = Error, message = ''Webhook failed: 500 Internal Server Error''\<rparr>"
    by (simp add: webhook_settled_def ok_def Let_def show_nat_500)
next
  assume "m \<noteq> []"
  then show "notice (fst (webhook_settled (Rejected (Some m)) s)) =
          Some \<lparr>kind = Error, message = ''Webhook error: '' @ m\<rparr>"
    by (simp add: webhook_settled_def)
next
  show "notice (fst (webhook_settled (Rejected (Some [])) s)) =
        Some \<lparr>kind = Error, message = ''Webhook error: Network error''\<rparr>"
    by (simp add: webhook_settled_def)
next
  show "notice (fst (webhook_settled (Rejected None) s)) =
        Some \<lparr>kind = Error, message = ''Webhook error: Network error''\<rparr>"
    by (simp add: webhook_settled_def)
next
  show "fst (webhook_settled (Resolved (res\<lparr>bodyText := b\<rparr>)) s) =
        fst (webhook_settled (Resolved res) s)"
    by (simp add: webhook_settled_def ok_def Let_def)
qed

theorem webhook_outcome_witness:
  "(\<exists>req. snd (toggleComplete ''2024-01-01T00:00:00.000Z'' (\<lambda>j. []) state1 task1) = [req]
      \<and> http_method req = ''POST'' \<and> url req = ''https://example.test/hook'')
   \<and> notice (fst (webhook_settled
        (Resolved \<lparr>status = 204, statusText = ''No Content'', bodyText = None\<rparr>) state1)) =
       Some \<lparr>kind = Success, message = ''Webhook sent successfully.''\<rparr>
   \<and> notice (fst (webhook_settled
        (Resolved \<lparr>status = 404, statusText = ''Not Found'', bodyText = Some ''gone''\<rparr>) state1)) =
       Some \<lparr>kind = Error, message = ''Webhook failed: 404 Not Found''\<rparr>
   \<and> notice (fst (webhook_settled (Rejected (Some ''Failed to fetch'')) state1)) =
       Some \<lparr>kind = Error, message = ''Webhook error: Failed to fetch''\<rparr>"
proof (intro conjI)
  let ?ok = "\<lparr>status = 204, statusText = ''No Content'', bodyText = None\<rparr>"
  let ?bad = "\<lparr>status = 404, statusText = ''Not Found'', bodyText = Some ''gone''\<rparr>"
  note t1 = webhook_outcome [of state1 task1 "''2024-01-01T00:00:00.000Z''" "\<lambda>j. []"
      "\<lambda>r. Rejected None" ?ok state1 None "''Failed to fetch''"]
  note t2 = webhook_outcome [of state1 task1 "''2024-01-01T00:00:00.000Z''" "\<lambda>j. []"
      "\<lambda>r. Rejected None" ?bad state1 None "''Failed to fetch''"]
  have h: "webhookUrl state1 \<noteq> [] \<and> \<not> completed task1"
    by (simp add: state1_def task1_def)
  have u: "webhookUrl state1 = ''https://example.test/hook''"
    by (simp add: state1_def)
  from t1 h show "\<exists>req. snd (toggleComplete ''2024-01-01T00:00:00.000Z'' (\<lambda>j. []) state1 task1) = [req]
      \<and> http_method req = ''POST'' \<and> url req = ''https://example.test/hook''"
    unfolding u by blast
  have "200 \<le> status ?ok \<and> status ?ok \<le> 299"
    by simp
  with t1 show "notice (fst (webhook_settled (Resolved ?ok) state1)) =
       Some \<lparr>kind = Success, message = ''Webhook sent successfully.''\<rparr>"
    by blast
  have "\<not> (200 \<le> status ?bad \<and> status ?bad \<le> 299)"
    by simp
  with t2 have "notice (fst (webhook_settled (Resolved ?bad) state1)) =
       Some \<lparr>kind = Error,
             message = ''Webhook failed: '' @ show_nat (status ?bad) @ '' '' @ statusText ?bad\<rparr>"
    by blast
  moreover have "show_nat 404 = ''404''"
    by (simp add: show_nat.simps)
  ultimately show "notice (fst (webhook_settled (Resolved ?bad) state1)) =
       Some \<lparr>kind = Error, message = ''Webhook failed: 404 Not Found''\<rparr>"
    by simp
  have "''Failed to fetch'' \<noteq> []"
    by simp
  with t1 show "notice (fst (webhook_settled (Rejected (Some ''Failed to fetch'')) state1)) =
       Some \<lparr>kind = Error, message = ''Webhook error: Failed to fetch''\<rparr>"
    by simp
qed

text \<open>
  Claim C7. The one call issued on completion is a POST to the webhook URL whose only
  header is \<open>Content-Type: application/json\<close> and whose body is the serialisation of the
  object with exactly the fields \<open>event\<close> ("task_completed"), \<open>timestamp\<close> (the ISO
  time of the call), \<open>source\<close> ("taskgen-local-app"), \<open>version\<close> (1), \<open>task\<close> and
  \<open>context\<close> (the context text of the state). The field \<open>task\<close> is the snapshot of the
  identifier, name, description and timeframe of the task, with \<open>completed\<close> always true.
\<close>

theorem toggleComplete_payload:
  "(webhookUrl st \<noteq> [] \<and> \<not> completed task \<longrightarrow>
      snd (toggleComplete now stringify st task) =
        [\<lparr>url = webhookUrl st,
          http_method = ''POST'',
          headers = [(''Content-Type'', ''application/json'')],
          body = stringify (JObject
            [(''event'', JString ''task_completed''),
             (''timestamp'', JString now),
             (''source'', JString ''taskgen-local-app''),
             (''version'', JNumber 1),
             (''task'', JObject
                [(''id'', JString (task_id task)),
                 (''name'', JString (name task)),
                 (''description'', JString (description task)),
                 (''timeframe'', JString (timeframe task)),
                 (''completed'', JBool True)]),
             (''context'', JText (contextText st))])\<rparr>])
   \<and> (\<exists>fields snapshot.
         payload now task ctx = JObject fields
         \<and> map fst fields =
             [''event'', ''timestamp'', ''source'', ''version'', ''task'', ''context'']
         \<and> map_of fields ''task'' = Some (JObject snapshot)
         \<and> map fst snapshot = [''id'', ''name'', ''description'', ''timeframe'', ''completed'']
         \<and> map_of snapshot ''completed'' = Some (JBool True))"
proof (intro conjI impI)
  assume "webhookUrl st \<noteq> [] \<and> \<not> completed task"
  then show "snd (toggleComplete now stringify st task) =
        [\<lparr>url = webhookUrl st,
          http_method = ''POST'',
          headers = [(''Content-Type'', ''application/json'')],
          body = stringify (JObject
            [(''event'', JString ''task_completed''),
             (''timestamp'', JString now),
             (''source'', JString ''taskgen-local-app''),
             (''version'', JNumber 1),
             (''task'', JObject
                [(''id'', JString (task_id task)),
                 (''name'', JString (name task)),
                 (''description'', JString (description task)),
                 (''timeframe'', JString (timeframe task)),
                 (''completed'', JBool True)]),
             (''context'', JText (contextText st))])\<rparr>]"
    by (simp add: toggleComplete_calls payload_def)
next
  let ?snapshot = "[(''id'', JString (task_id task)),
                 (''name'', JString (name task)),
                 (''description'', JString (description task)),
                 (''timeframe'', JString (timeframe task)),
                 (''completed'', JBool True)]"
  let ?fields = "[(''event'', JString ''task_completed''),
             (''timestamp'', JString now),
             (''source'', JString ''taskgen-local-app''),
             (''version'', JNumber 1),
             (''task'', JObject ?snapshot),
             (''context'', JText ctx)]"
  have f: "payload now task ctx = JObject ?fields
      \<and> map fst ?fields =
          [''event'', ''timestamp'', ''source'', ''version'', ''task'', ''context'']
      \<and> map_of ?fields ''task'' = Some (JObject ?snapshot)
      \<and> map fst ?snapshot = [''id'', ''name'', ''description'', ''timeframe'', ''completed'']
      \<and> map_of ?snapshot ''completed'' = Some (JBool True)"
    by (simp add: payload_def)
  show "\<exists>fields snapshot.
         payload now task ctx = JObject fields
         \<and> map fst fields =
             [''event'', ''timestamp'', ''source'', ''version'', ''task'', ''context'']
         \<and> map_of fields ''task'' = Some (JObject snapshot)
         \<and> map fst snapshot = [''id'', ''name'', ''description'', ''timeframe'', ''completed'']
         \<and> map_of snapshot ''completed'' = Some (JBool True)"
    by (rule exI [of _ ?fields], rule exI [of _ ?snapshot]) (rule f)
qed

theorem toggleComplete_payload_witness:
  "map url (snd (toggleComplete ''2024-01-01T00:00:00.000Z'' (\<lambda>j. []) state1 task1)) =
     [''https://example.test/hook'']
   \<and> map http_method (snd (toggleComplete ''2024-01-01T00:00:00.000Z'' (\<lambda>j. []) state1 task1)) =
     [''POST'']
   \<and> map headers (snd (toggleComplete ''2024-01-01T00:00:00.000Z'' (\<lambda>j. []) state1 task1)) =
     [[(''Content-Type'', ''application/json'')]]"
proof -
  have h: "webhookUrl state1 \<noteq> [] \<and> \<not> completed task1"
    by (simp add: state1_def task1_def)
  have u: "webhookUrl state1 = ''https://example.test/hook''"
    by (simp add: state1_def)
  from toggleComplete_payload
    [of state1 task1 "''2024-01-01T00:00:00.000Z''" "\<lambda>j. []" "contextText state1"]
  have "webhookUrl state1 \<noteq> [] \<and> \<not> completed task1 \<longrightarrow>
      snd (toggleComplete ''2024-01-01T00:00:00.000Z'' (\<lambda>j. []) state1 task1) =
        [\<lparr>url = webhookUrl state1,
          http_method = ''POST'',
          headers = [(''Content-Type'', ''application/json'')],
          body = []\<rparr>]"
    by (elim conjE)
  with h have "snd (toggleComplete ''2024-01-01T00:00:00.000Z'' (\<lambda>j. []) state1 task1) =
        [\<lparr>url = webhookUrl state1,
          http_method = ''POST'',
          headers = [(''Content-Type'', ''application/json'')],
          body = []\<rparr>]"
    by (rule rev_mp)
  then show ?thesis
    by (simp add: u)
qed

lemma distinct_id_eq:
  assumes "distinct (map task_id ts)" "task \<in> set ts" "t \<in> set ts"
  shows "task_id t = task_id task \<longleftrightarrow> t = task"
proof -
  from assms(1) have "inj_on task_id (set ts)"
    by (simp add: distinct_map)
  with assms(2,3) show ?thesis
    by (auto dest: inj_onD)
qed

lemma toggleComplete_tasks:
  "tasks (fst (toggleComplete now stringify st task)) =
     map (\<lambda>t. if task_id t = task_id task then task\<lparr>completed := \<not> completed task\<rparr> else t)
       (tasks st)"
  by (simp add: toggleComplete_def Let_def)

lemma webhook_settled_frame:
  "tasks (fst (webhook_settled r s)) = tasks s
   \<and> contextText (fst (webhook_settled r s)) = contextText s
   \<and> webhookUrl (fst (webhook_settled r s)) = webhookUrl s"
  by (simp add: webhook_settled_def Let_def split: fetch_result.split)

lemma toggleComplete_settled_tasks:
  "tasks (fst (toggleComplete_settled fetch now stringify st task)) =
     tasks (fst (toggleComplete now stringify st task))"
  by (simp add: toggleComplete_settled_def split_beta webhook_settled_frame split: list.split)

text \<open>
  Claim C10, amended. Marking a task as complete updates the task list first and
  whatever the notification does. Tasks are identified by their identifier: every entry
  of the list that carries the identifier of the target is replaced by the target with
  \<open>completed\<close> set to true and its other fields as they are, and every entry with another
  identifier stays as it is. When the target is in the list and the identifiers of the
  list are distinct, this changes the field \<open>completed\<close> of the target and nothing else.
  The new list is the same for every webhook URL, the empty one included, and for every
  answer of the transport; no handler of the notification changes the list, and the
  context text and the URL stay as well. Toggling a completed task back issues no call of
  \<^verbatim>\<open>fetch\<close>.
\<close>

theorem toggleComplete_frame_by_id:
  "tasks (fst (toggleComplete now stringify st task)) =
     map (\<lambda>t. if task_id t = task_id task then task\<lparr>completed := \<not> completed task\<rparr> else t)
       (tasks st)
   \<and> (\<not> completed task \<longrightarrow>
        tasks (fst (toggleComplete now stringify st task)) =
          map (\<lambda>t. if task_id t = task_id task then task\<lparr>completed := True\<rparr> else t) (tasks st))
   \<and> (task \<in> set (tasks st) \<and> distinct (map task_id (tasks st)) \<and> \<not> completed task \<longrightarrow>
      tasks (fst (toggleComplete now stringify st task)) =
        map (\<lambda>t. if t = task then t\<lparr>completed := True\<rparr> else t) (tasks st)
      \<and> tasks (fst (toggleComplete_settled fetch now stringify st task)) =
        map (\<lambda>t. if t = task then t\<lparr>completed := True\<rparr> else t) (tasks st))
   \<and> tasks (fst (toggleComplete now stringify (st\<lparr>webhookUrl := u\<rparr>) task)) =
       tasks (fst (toggleComplete now stringify st task))
   \<and> tasks (fst (toggleComplete_settled fetch now stringify st task)) =
       tasks (fst (toggleComplete now stringify st task))
   \<and> contextText (fst (toggleComplete now stringify st task)) = contextText st
   \<and> webhookUrl (fst (toggleComplete now stringify st task)) = webhookUrl st
   \<and> tasks (fst (webhook_settled r s)) = tasks s
   \<and> (completed task \<longrightarrow>
        snd (toggleComplete now stringify st task) = []
        \<and> fst (snd (toggleComplete_settled fetch now stringify st task)) = [])"
proof (intro conjI impI)
  show "tasks (fst (toggleComplete now stringify st task)) =
     map (\<lambda>t. if task_id t = task_id task then task\<lparr>completed := \<not> completed task\<rparr> else t)
       (tasks st)"
    by (rule toggleComplete_tasks)
next
  assume "\<not> completed task"
  then show "tasks (fst (toggleComplete now stringify st task)) =
          map (\<lambda>t. if task_id t = task_id task then task\<lparr>completed := True\<rparr> else t) (tasks st)"
    by (simp add: toggleComplete_tasks)
next
  assume a: "task \<in> set (tasks st) \<and> distinct (map task_id (tasks st)) \<and> \<not> completed task"
  then have up: "task\<lparr>completed := \<not> completed task\<rparr> = task\<lparr>completed := True\<rparr>"
    by simp
  have "map (\<lambda>t. if task_id t = task_id task then task\<lparr>completed := \<not> completed task\<rparr> else t)
          (tasks st) =
        map (\<lambda>t. if t = task then t\<lparr>completed := True\<rparr> else t) (tasks st)"
  proof (rule map_cong [OF refl])
    fix t assume t: "t \<in> set (tasks st)"
    from a have d: "distinct (map task_id (tasks st))" and m: "task \<in> set (tasks st)"
      by simp_all
    from d m t have "task_id t = task_id task \<longleftrightarrow> t = task"
      by (rule distinct_id_eq)
    then show "(if task_id t = task_id task then task\<lparr>completed := \<not> completed task\<rparr> else t) =
        (if t = task then t\<lparr>completed := True\<rparr> else t)"
      using up by auto
  qed
  then show 1: "tasks (fst (toggleComplete now stringify st task)) =
        map (\<lambda>t. if t = task then t\<lparr>completed := True\<rparr> else t) (tasks st)"
    by (simp only: toggleComplete_tasks)
  then show "tasks (fst (toggleComplete_settled fetch now stringify st task)) =
        map (\<lambda>t. if t = task then t\<lparr>completed := True\<rparr> else t) (tasks st)"
    by (simp only: toggleComplete_settled_tasks)
next
  show "tasks (fst (toggleComplete now stringify (st\<lparr>webhookUrl := u\<rparr>) task)) =
       tasks (fst (toggleComplete now stringify st task))"
    by (simp add: toggleComplete_tasks)
next
  show "tasks (fst (toggleComplete_settled fetch now stringify st task)) =
       tasks (fst (toggleComplete now stringify st task))"
    by (rule toggleComplete_settled_tasks)
next
  show "contextText (fst (toggleComplete now stringify st task)) = contextText st"
    by (simp add: toggleComplete_def Let_def)
next
  show "webhookUrl (fst (toggleComplete now stringify st task)) = webhookUrl st"
    by (simp add: toggleComplete_def Let_def)
next
  show "tasks (fst (webhook_settled r s)) = tasks s"
    by (simp add: webhook_settled_frame)
next
  assume c: "completed task"
  then show e: "snd (toggleComplete now stringify st task) = []"
    by (simp add: toggleComplete_def Let_def)
  then show "fst (snd (toggleComplete_settled fetch now stringify st task)) = []"
    by (simp add: toggleComplete_settled_def split_beta)
qed

theorem toggleComplete_frame_by_id_witness:
  "tasks (fst (toggleComplete ''2024-01-01T00:00:00.000Z'' stringify1 state1 task1)) =
     [task1\<lparr>completed := True\<rparr>, task2]
   \<and> tasks (fst (toggleComplete_settled (\<lambda>r. Rejected None) ''2024-01-01T00:00:00.000Z''
        stringify1 state1 task1)) = [task1\<lparr>completed := True\<rparr>, task2]
   \<and> tasks (fst (toggleComplete ''2024-01-01T00:00:00.000Z'' stringify1 state2 task1)) =
     [task1\<lparr>completed := True\<rparr>, task1\<lparr>completed := True\<rparr>]
   \<and> snd (toggleComplete ''2024-01-01T00:00:00.000Z'' stringify1 state1 task2) = []"
proof -
  note t = toggleComplete_frame_by_id [of "''2024-01-01T00:00:00.000Z''" stringify1 _ _
      "\<lambda>r. Rejected None" "[]" "Rejected None" state1]
  have ne: "task2 \<noteq> task1"
    by (simp add: task1_def task2_def)
  have h: "task1 \<in> set (tasks state1) \<and> distinct (map task_id (tasks state1)) \<and> \<not> completed task1"
    by (simp add: state1_def task1_def task2_def)
  have m: "map (\<lambda>t. if t = task1 then t\<lparr>completed := True\<rparr> else t) (tasks state1) =
      [task1\<lparr>completed := True\<rparr>, task2]"
    by (simp add: state1_def ne)
  have n: "\<not> completed task1"
    by (simp add: task1_def)
  have m2: "map (\<lambda>t. if task_id t = task_id task1 then task1\<lparr>completed := True\<rparr> else t)
      (tasks state2) = [task1\<lparr>completed := True\<rparr>, task1\<lparr>completed := True\<rparr>]"
    by (simp add: state2_def task1_def task3_def)
  have c: "completed task2"
    by (simp add: task2_def)
  from t [of state1 task1] h
  have "tasks (fst (toggleComplete ''2024-01-01T00:00:00.000Z'' stringify1 state1 task1)) =
        map (\<lambda>t. if t = task1 then t\<lparr>completed := True\<rparr> else t) (tasks state1)
      \<and> tasks (fst (toggleComplete_settled (\<lambda>r. Rejected None) ''2024-01-01T00:00:00.000Z''
        stringify1 state1 task1)) =
        map (\<lambda>t. if t = task1 then t\<lparr>completed := True\<rparr> else t) (tasks state1)"
    by blast
  moreover from t [of state2 task1] n
  have "tasks (fst (toggleComplete ''2024-01-01T00:00:00.000Z'' stringify1 state2 task1)) =
      map (\<lambda>t. if task_id t = task_id task1 then task1\<lparr>completed := True\<rparr> else t)
        (tasks state2)"
    by blast
  moreover from t [of state1 task2] c
  have "snd (toggleComplete ''2024-01-01T00:00:00.000Z'' stringify1 state1 task2) = []"
    by blast
  ultimately show ?thesis
    by (simp only: m m2)
qed

theorem toggleComplete_frame_counterexample:
  "task1 \<in> set (tasks state2) \<and> task3 \<in> set (tasks state2) \<and> task3 \<noteq> task1
   \<and> \<not> completed task1
   \<and> tasks (fst (toggleComplete ''2024-01-01T00:00:00.000Z'' stringify1 state2 task1)) =
       [task1\<lparr>completed := True\<rparr>, task1\<lparr>completed := True\<rparr>]
   \<and> tasks (fst (toggleComplete ''2024-01-01T00:00:00.000Z'' stringify1 state2 task1)) \<noteq>
       [task1\<lparr>completed := True\<rparr>, task3]"
  by (simp add: toggleComplete_def Let_def state2_def task1_def task3_def)

end
